theory Spec2Isabelle
  imports Complex_Main "HOL-Library.Word" "HOL-Library.Log_Nat"
begin

section \<open>Data model of \<open>src/utils/rtc.ts\<close>\<close>

type_synonym byte = "8 word"

text \<open>\<open>type FileMeta = { fileId, name, size, type, totalChunks }\<close>. The fields \<open>size\<close> and
  \<open>type\<close> carry the suffix \<open>_m\<close> because \<open>size\<close> is a constant of HOL.\<close>

record FileMeta =
  fileId :: string
  name :: string
  size_m :: nat
  type_m :: string
  totalChunks :: nat

definition CHUNK_SIZE :: nat where
  "CHUNK_SIZE = 16 * 1024"

text \<open>A \<open>File\<close> of the browser: a name, a media type and its bytes; \<open>file.size\<close> is the
  number of bytes.\<close>

record File =
  file_name :: string
  file_type :: string
  file_bytes :: "byte list"

definition file_size :: "File \<Rightarrow> nat" where
  "file_size f = length (file_bytes f)"

text \<open>\<open>file.slice(start, end)\<close>: the bytes from \<open>start\<close> up to, not including, \<open>end\<close>; an
  \<open>end\<close> before \<open>start\<close> gives the empty blob (the truncating subtraction of \<open>nat\<close>).\<close>

definition slice_file :: "File \<Rightarrow> nat \<Rightarrow> nat \<Rightarrow> byte list" where
  "slice_file f start stop = take (stop - start) (drop start (file_bytes f))"

datatype blob = Blob (blob_bytes: "byte list") (blob_type: string)

subsection \<open>JavaScript numbers of the progress computation\<close>

text \<open>
  \<open>Math.floor((a / b) * 100)\<close> is computed on IEEE 754 doubles: the quotient is rounded to
  the nearest double (ties to even), the product is rounded again, and only then the floor
  is taken. \<open>round_double\<close> is that rounding for the non-negative values of the normal
  range, which is all that a quotient of two chunk counts and its product with 100 can be:
  the value is scaled to a 53-bit significand, rounded to the nearest integer with ties
  to even, and scaled back. Division by zero gives \<open>Infinity\<close> (or \<open>NaN\<close> for \<open>0 / 0\<close>),
  which multiplication by 100 and \<open>Math.floor\<close> hand on unchanged.
\<close>

datatype jsnum = Num int | PosInfinity | NaN

definition pow2 :: "int \<Rightarrow> rat" where
  "pow2 e = (if 0 \<le> e then 2 ^ nat e else 1 / 2 ^ nat (- e))"

definition round_half_even :: "rat \<Rightarrow> int" where
  "round_half_even x =
     (let f = \<lfloor>x\<rfloor>; d = x - of_int f
      in if d < 1 / 2 then f else if 1 / 2 < d then f + 1
         else if even f then f else f + 1)"

text \<open>The binary exponent of a positive rational: \<open>pow2 (ilog2 x) \<le> x < pow2 (ilog2 x + 1)\<close>,
  found from the bit lengths of numerator and denominator.\<close>

definition ilog2 :: "rat \<Rightarrow> int" where
  "ilog2 x =
     (let (a, b) = quotient_of x;
          k = bitlen a - bitlen b
      in if pow2 k \<le> x then k else k - 1)"

definition round_double :: "rat \<Rightarrow> rat" where
  "round_double x =
     (if x \<le> 0 then 0
      else let e = ilog2 x - 52 in of_int (round_half_even (x / pow2 e)) * pow2 e)"

text \<open>\<open>Math.floor((i / n) * 100)\<close> for two counts \<open>i\<close> and \<open>n\<close>.\<close>

definition progress :: "nat \<Rightarrow> nat \<Rightarrow> jsnum" where
  "progress i n =
     (if n = 0 then (if i = 0 then NaN else PosInfinity)
      else Num \<lfloor>round_double (round_double (of_nat i / of_nat n) * 100)\<rfloor>)"

text \<open>The comparison \<open>a <= b\<close> of JavaScript on these values; it is false when \<open>NaN\<close> is
  involved.\<close>

definition js_le :: "jsnum \<Rightarrow> jsnum \<Rightarrow> bool" where
  "js_le a b =
     (case (a, b) of
        (Num x, Num y) \<Rightarrow> x \<le> y
      | (Num x, PosInfinity) \<Rightarrow> True
      | (PosInfinity, PosInfinity) \<Rightarrow> True
      | _ \<Rightarrow> False)"

subsection \<open>Frames, channel, signaling envelopes\<close>

text \<open>
  A frame of the data channel is either text or binary (\<open>typeof e.data === 'string'\<close>).
  A text frame is JSON; the receiver looks only at \<open>messageType\<close>: \<open>'file-info'\<close> with its
  \<open>meta\<close>, \<open>'file-complete'\<close> with a \<open>fileId\<close>, or anything else.
\<close>

datatype frame =
    FileInfoMsg FileMeta
  | FileCompleteMsg string
  | OtherMsg string
  | Binary "byte list"

datatype ready_state = Connecting | Open | Closing | Closed

datatype js_error = InvalidStateError | SendQueueFull | TypeError

text \<open>
  The \<open>RTCDataChannel\<close>. \<open>outbox\<close> is the sequence of frames handed to \<open>send\<close> so far,
  \<open>bufferedAmount\<close> the bytes queued and not yet transmitted. \<open>sendQueueLimit\<close> is the
  implementation's bound on the queue (\<open>None\<close>: no bound), beyond which \<open>send\<close> throws the
  error whose message contains \<open>'send queue is full'\<close>. \<open>textBytes\<close> is the number of bytes
  the channel accounts for the JSON text of a structured frame. \<open>onbufferedamountlow\<close> holds
  the index of the transfer whose \<open>sendNextChunk\<close> is registered as the handler.
\<close>

record channel =
  readyState :: ready_state
  bufferedAmount :: nat
  bufferedAmountLowThreshold :: nat
  sendQueueLimit :: "nat option"
  textBytes :: "frame \<Rightarrow> nat"
  outbox :: "frame list"
  onbufferedamountlow :: "nat option"

definition frame_size :: "channel \<Rightarrow> frame \<Rightarrow> nat" where
  "frame_size ch f = (case f of Binary bs \<Rightarrow> length bs | _ \<Rightarrow> textBytes ch f)"

text \<open>\<open>dataChannel.send(data)\<close>: throws on a channel that is not open or whose queue is
  full, otherwise queues the frame.\<close>

definition dc_send :: "frame \<Rightarrow> channel \<Rightarrow> js_error + channel" where
  "dc_send f ch =
     (if readyState ch \<noteq> Open then Inl InvalidStateError
      else if (case sendQueueLimit ch of None \<Rightarrow> False
               | Some cap \<Rightarrow> cap < bufferedAmount ch + frame_size ch f)
      then Inl SendQueueFull
      else Inr (ch\<lparr>bufferedAmount := bufferedAmount ch + frame_size ch f,
                   outbox := outbox ch @ [f]\<rparr>))"

datatype sig_kind = Offer | Answer | Candidate | OtherKind

record signal =
  kind :: sig_kind
  sdp :: "string option"
  candidate :: "string option"

record envelope = signal +
  e_from :: string
  e_to :: "string option"

datatype ws_state = WS_CONNECTING | WS_OPEN | WS_CLOSING | WS_CLOSED

record websocket =
  ws_readyState :: ws_state
  ws_sent :: "envelope list"

datatype conn_state =
  CS_new | CS_connecting | CS_connected | CS_disconnected | CS_failed | CS_closed

text \<open>The \<open>RTCPeerConnection\<close>, as far as this module drives it.\<close>

record peer_connection =
  connectionState :: conn_state
  initiator :: bool
  localDescription :: "(sig_kind \<times> string option) option"
  remoteDescription :: "(sig_kind \<times> string option) option"
  iceCandidates :: "string option list"

subsection \<open>The \<open>PeerTransfer\<close> object\<close>

text \<open>The callbacks \<open>onConnect\<close>, \<open>onDisconnect\<close>, \<open>onFileInfo\<close>, \<open>onProgress\<close> and
  \<open>onComplete\<close>, with the arguments of a call.\<close>

datatype event =
    OnConnect
  | OnDisconnect
  | OnFileInfo FileMeta
  | OnProgress jsnum
  | OnComplete blob FileMeta

datatype log_msg =
    LogWsConnected
  | WarnChannelNotReady
  | WarnDroppingSignal signal
  | ErrUnexpectedSend js_error
  | ErrFileReader
  | Uncaught js_error

text \<open>What the object does that can be seen from outside, in the order it happens: a
  callback fired, a line on the console, a frame handed to the data channel.\<close>

datatype action = Callback event | Console log_msg | Sent frame

text \<open>The variables one call of \<open>sendFile\<close> closes over.\<close>

record transfer =
  t_file :: File
  t_fileId :: string
  t_totalChunks :: nat
  chunkIndex :: nat
  isReading :: bool

text \<open>Work that the event loop still owes: a \<open>FileReader\<close> reading a slice for a transfer
  (the index of the transfer in \<open>transfers\<close>, the slice), and a \<open>setTimeout(trySend, 50)\<close>
  (its delay in milliseconds, the index of the transfer, the chunk it will retry).\<close>

datatype task = Reader nat "byte list" | TrySendTimer nat nat "byte list"

text \<open>The fields of the class, then the closures of the \<open>sendFile\<close> calls made so far, the
  pending work, the pending \<open>sendSignal\<close> retries (delay, message, attempt) and the history
  of visible actions.\<close>

record peer =
  peerId :: string
  remoteId :: "string option"
  ws :: websocket
  peerConnection :: "peer_connection option"
  dataChannel :: "channel option"
  incomingChunks :: "byte list list"
  expectedChunks :: nat
  receivingFile :: "FileMeta option"
  transfers :: "transfer list"
  tasks :: "task list"
  signalTimers :: "(nat \<times> signal \<times> nat) list"
  history :: "action list"

definition fired :: "peer \<Rightarrow> event list" where
  "fired st = concat (map (\<lambda>a. case a of Callback e \<Rightarrow> [e] | _ \<Rightarrow> []) (history st))"

definition console :: "peer \<Rightarrow> log_msg list" where
  "console st = concat (map (\<lambda>a. case a of Console m \<Rightarrow> [m] | _ \<Rightarrow> []) (history st))"

definition emit :: "action \<Rightarrow> peer \<Rightarrow> peer" where
  "emit a st = st\<lparr>history := history st @ [a]\<rparr>"

text \<open>The object as the constructor leaves it.\<close>

definition new_peer :: "string \<Rightarrow> peer" where
  "new_peer pid =
     \<lparr>peerId = pid, remoteId = None,
      ws = \<lparr>ws_readyState = WS_CONNECTING, ws_sent = []\<rparr>,
      peerConnection = None, dataChannel = None,
      incomingChunks = [], expectedChunks = 0, receivingFile = None,
      transfers = [], tasks = [], signalTimers = [], history = []\<rparr>"

definition setRemoteId :: "string \<Rightarrow> peer \<Rightarrow> peer" where
  "setRemoteId i st = st\<lparr>remoteId := Some i\<rparr>"

text \<open>A list without its element at position \<open>k\<close>: a pending task that has run.\<close>

definition remove_nth :: "nat \<Rightarrow> 'a list \<Rightarrow> 'a list" where
  "remove_nth k xs = take k xs @ drop (Suc k) xs"

section \<open>Transfer receiver\<close>

definition handleFileInfo :: "FileMeta \<Rightarrow> peer \<Rightarrow> peer" where
  "handleFileInfo meta st =
     emit (Callback (OnFileInfo meta))
       (st\<lparr>receivingFile := Some meta,
           expectedChunks := totalChunks meta,
           incomingChunks := []\<rparr>)"

definition handleFileChunkBinary :: "byte list \<Rightarrow> peer \<Rightarrow> peer" where
  "handleFileChunkBinary data st =
     (let st1 = st\<lparr>incomingChunks := incomingChunks st @ [data]\<rparr>
      in emit (Callback (OnProgress
                 (progress (length (incomingChunks st1)) (expectedChunks st1)))) st1)"

definition handleComplete :: "peer \<Rightarrow> peer" where
  "handleComplete st =
     (case receivingFile st of
        None \<Rightarrow> st
      | Some meta \<Rightarrow>
          (emit (Callback (OnComplete (Blob (concat (incomingChunks st)) (type_m meta)) meta)) st)
            \<lparr>incomingChunks := [],
             expectedChunks := 0,
             receivingFile := None\<rparr>)"

text \<open>\<open>dataChannel.onmessage\<close> as \<open>setupDataChannel\<close> installs it.\<close>

definition dc_onmessage :: "frame \<Rightarrow> peer \<Rightarrow> peer" where
  "dc_onmessage f st =
     (case f of
        FileInfoMsg meta \<Rightarrow> handleFileInfo meta st
      | FileCompleteMsg fid \<Rightarrow> handleComplete st
      | OtherMsg s \<Rightarrow> st
      | Binary data \<Rightarrow> handleFileChunkBinary data st)"

text \<open>Delivery of a sequence of frames, in order.\<close>

fun receive :: "frame list \<Rightarrow> peer \<Rightarrow> peer" where
  "receive [] st = st"
| "receive (f # fs) st = receive fs (dc_onmessage f st)"

section \<open>Signal relay client and handshake\<close>

definition MAX_RETRIES :: nat where
  "MAX_RETRIES = 20"

definition RETRY_DELAY :: nat where
  "RETRY_DELAY = 100"

definition envelope_of :: "signal \<Rightarrow> peer \<Rightarrow> envelope" where
  "envelope_of msg st =
     \<lparr>kind = kind msg, sdp = sdp msg, candidate = candidate msg,
      e_from = peerId st, e_to = remoteId st\<rparr>"

text \<open>One invocation of \<open>sendSignal(msg, attempt)\<close>: send, or leave a timer that will call
  \<open>sendSignal(msg, attempt + 1)\<close> after \<open>RETRY_DELAY\<close> milliseconds, or warn and drop.\<close>

definition sendSignal :: "signal \<Rightarrow> nat \<Rightarrow> peer \<Rightarrow> peer" where
  "sendSignal msg attempt st =
     (if ws_readyState (ws st) = WS_OPEN
      then st\<lparr>ws := (ws st)\<lparr>ws_sent := ws_sent (ws st) @ [envelope_of msg st]\<rparr>\<rparr>
      else if ws_readyState (ws st) = WS_CONNECTING \<and> attempt < MAX_RETRIES
      then st\<lparr>signalTimers := signalTimers st @ [(RETRY_DELAY, msg, attempt + 1)]\<rparr>
      else emit (Console (WarnDroppingSignal msg)) st)"

definition setupDataChannel :: "peer \<Rightarrow> peer" where
  "setupDataChannel st =
     (case dataChannel st of
        None \<Rightarrow> st
      | Some ch \<Rightarrow> st\<lparr>dataChannel := Some (ch\<lparr>bufferedAmountLowThreshold := 1024 * 1024\<rparr>)\<rparr>)"

text \<open>What the browser supplies to a handshake step: the channel that \<open>createDataChannel\<close>
  returns and the description that \<open>createOffer\<close> or \<open>createAnswer\<close> resolves with.\<close>

record browser =
  created_channel :: channel
  created_sdp :: "string option"

text \<open>\<open>initPeerConnection(initiator)\<close>; the continuation of \<open>createOffer()\<close> runs in the same
  step.\<close>

definition initPeerConnection :: "bool \<Rightarrow> browser \<Rightarrow> peer \<Rightarrow> peer" where
  "initPeerConnection init b st =
     (let pc = \<lparr>connectionState = CS_new, initiator = init, localDescription = None,
                remoteDescription = None, iceCandidates = []\<rparr>;
          st1 = st\<lparr>peerConnection := Some pc\<rparr>
      in if init
         then let st2 = setupDataChannel (st1\<lparr>dataChannel := Some (created_channel b)\<rparr>);
                  st3 = st2\<lparr>peerConnection :=
                              Some (pc\<lparr>localDescription := Some (Offer, created_sdp b)\<rparr>)\<rparr>
              in sendSignal \<lparr>kind = Offer, sdp = created_sdp b, candidate = None\<rparr> 0 st3
         else st1)"

text \<open>\<open>peerConnection.onicecandidate\<close>: \<open>e.candidate && this.remoteId\<close> holds for a candidate
  that is not null and a remote id that is neither null nor the empty string.\<close>

definition pc_onicecandidate :: "string option \<Rightarrow> peer \<Rightarrow> peer" where
  "pc_onicecandidate c st =
     (if c \<noteq> None \<and> remoteId st \<noteq> None \<and> remoteId st \<noteq> Some []
      then sendSignal \<lparr>kind = Candidate, sdp = None, candidate = c\<rparr> 0 st
      else st)"

text \<open>\<open>peerConnection.ondatachannel\<close>, installed on the answering side only.\<close>

definition pc_ondatachannel :: "channel \<Rightarrow> peer \<Rightarrow> peer" where
  "pc_ondatachannel ch st =
     (case peerConnection st of
        None \<Rightarrow> st
      | Some pc \<Rightarrow> if initiator pc then st
                   else setupDataChannel (st\<lparr>dataChannel := Some ch\<rparr>))"

text \<open>\<open>peerConnection.onconnectionstatechange\<close>, after the connection moved to state \<open>s\<close>.\<close>

definition pc_onconnectionstatechange :: "conn_state \<Rightarrow> peer \<Rightarrow> peer" where
  "pc_onconnectionstatechange s st =
     (case peerConnection st of
        None \<Rightarrow> st
      | Some pc \<Rightarrow>
          (let st1 = st\<lparr>peerConnection := Some (pc\<lparr>connectionState := s\<rparr>)\<rparr>;
               st2 = (if s = CS_connected then emit (Callback OnConnect) st1 else st1)
           in if s = CS_disconnected \<or> s = CS_failed
              then emit (Callback OnDisconnect) st2 else st2))"

text \<open>\<open>handleSignal\<close>, the \<open>onmessage\<close> handler of the web socket. The awaited calls on the
  peer connection resolve in the same step; \<open>peerConnection?.\<close> skips them when there is no
  connection object.\<close>

definition handleSignal :: "browser \<Rightarrow> envelope \<Rightarrow> peer \<Rightarrow> peer" where
  "handleSignal b msg st =
     (if e_to msg \<noteq> Some (peerId st) then st
      else case kind msg of
        Offer \<Rightarrow>
          (let st1 = initPeerConnection False b (st\<lparr>remoteId := Some (e_from msg)\<rparr>);
               st2 = (case peerConnection st1 of
                        None \<Rightarrow> st1
                      | Some pc \<Rightarrow>
                          st1\<lparr>peerConnection :=
                                Some (pc\<lparr>remoteDescription := Some (Offer, sdp msg),
                                         localDescription := Some (Answer, created_sdp b)\<rparr>)\<rparr>)
           in sendSignal \<lparr>kind = Answer, sdp = created_sdp b, candidate = None\<rparr> 0 st2)
      | Answer \<Rightarrow>
          (case peerConnection st of
             None \<Rightarrow> st
           | Some pc \<Rightarrow>
               st\<lparr>peerConnection := Some (pc\<lparr>remoteDescription := Some (Answer, sdp msg)\<rparr>)\<rparr>)
      | Candidate \<Rightarrow>
          (case peerConnection st of
             None \<Rightarrow> st
           | Some pc \<Rightarrow>
               st\<lparr>peerConnection :=
                     Some (pc\<lparr>iceCandidates := iceCandidates pc @ [candidate msg]\<rparr>)\<rparr>)
      | OtherKind \<Rightarrow> st)"

text \<open>
  The class keeps no state variable for the handshake. The states of the specification
  are read off the object: \<open>Idle\<close> while no connection object exists, \<open>Negotiating\<close> once it
  has been created, \<open>Open\<close> when it reports \<open>connected\<close>, \<open>Failed\<close> when it reports
  \<open>disconnected\<close> or \<open>failed\<close>, \<open>Closed\<close> when it is closed.
\<close>

datatype session_state = S_Idle | S_Negotiating | S_Open | S_Closed | S_Failed

definition session_state_of :: "peer \<Rightarrow> session_state" where
  "session_state_of st =
     (case peerConnection st of
        None \<Rightarrow> S_Idle
      | Some pc \<Rightarrow>
          (case connectionState pc of
             CS_new \<Rightarrow> S_Negotiating
           | CS_connecting \<Rightarrow> S_Negotiating
           | CS_connected \<Rightarrow> S_Open
           | CS_disconnected \<Rightarrow> S_Failed
           | CS_failed \<Rightarrow> S_Failed
           | CS_closed \<Rightarrow> S_Closed))"

text \<open>The timer at position \<open>k\<close> of the pending \<open>sendSignal\<close> retries fires: the closure
  \<open>() => this.sendSignal(msg, attempt + 1)\<close> runs with the message and the attempt number
  it holds.\<close>

definition signal_timer_fire :: "nat \<Rightarrow> peer \<Rightarrow> peer" where
  "signal_timer_fire k st =
     (if length (signalTimers st) \<le> k then st
      else case signalTimers st ! k of
        (delay, msg, attempt) \<Rightarrow>
          sendSignal msg attempt (st\<lparr>signalTimers := remove_nth k (signalTimers st)\<rparr>))"

text \<open>
  The life of one \<open>sendSignal(msg)\<close> call. \<open>rs k\<close> is the state in which the \<open>k\<close>-th
  invocation finds the web socket. \<open>base\<close> timers were pending before the call; as long as
  the call's own timer is pending behind them, it fires after the delay it was set with
  and \<open>sendSignal\<close> runs again with what the timer holds. The run ends when no timer of
  the call is left, with the final state, the number of invocations made and the
  milliseconds spent waiting; \<open>None\<close> when the fuel is used up before that.
\<close>

fun sendSignal_retries :: "nat \<Rightarrow> (nat \<Rightarrow> ws_state) \<Rightarrow> nat \<Rightarrow> nat \<Rightarrow> nat \<Rightarrow> peer \<Rightarrow> (peer \<times> nat \<times> nat) option" where
  "sendSignal_retries 0 rs base calls waited st =
     (if length (signalTimers st) \<le> base then Some (st, calls, waited) else None)"
| "sendSignal_retries (Suc fuel) rs base calls waited st =
     (if length (signalTimers st) \<le> base then Some (st, calls, waited)
      else case signalTimers st ! base of
        (delay, msg, attempt) \<Rightarrow>
          sendSignal_retries fuel rs base (calls + 1) (waited + delay)
            (signal_timer_fire base (st\<lparr>ws := (ws st)\<lparr>ws_readyState := rs calls\<rparr>\<rparr>)))"

declare sendSignal_retries.simps [simp del]

definition sendSignal_run :: "nat \<Rightarrow> (nat \<Rightarrow> ws_state) \<Rightarrow> signal \<Rightarrow> peer \<Rightarrow> (peer \<times> nat \<times> nat) option" where
  "sendSignal_run fuel rs msg st =
     sendSignal_retries fuel rs (length (signalTimers st)) 1 0
       (sendSignal msg 0 (st\<lparr>ws := (ws st)\<lparr>ws_readyState := rs 0\<rparr>\<rparr>))"

section \<open>Transfer sender\<close>

text \<open>\<open>sendNextChunk\<close> of the transfer \<open>tid\<close>: nothing without a channel, past the last
  chunk, during a read or above the pause threshold; otherwise a \<open>FileReader\<close> is started
  on the next slice.\<close>

definition sendNextChunk :: "nat \<Rightarrow> peer \<Rightarrow> peer" where
  "sendNextChunk tid st =
     (if length (transfers st) \<le> tid then st
      else let t = transfers st ! tid
      in case dataChannel st of
           None \<Rightarrow> st
         | Some ch \<Rightarrow>
             if t_totalChunks t \<le> chunkIndex t \<or> isReading t then st
             else if 16 * 1024 * 1024 < bufferedAmount ch then st
             else let start = chunkIndex t * CHUNK_SIZE;
                      stop = min (start + CHUNK_SIZE) (file_size (t_file t));
                      chunk = slice_file (t_file t) start stop
                  in st\<lparr>transfers := (transfers st)[tid := t\<lparr>isReading := True\<rparr>],
                        tasks := tasks st @ [Reader tid chunk]\<rparr>)"

text \<open>\<open>trySend\<close> inside \<open>reader.onload\<close>, for the chunk \<open>chunkData\<close> just read. An exception
  of the completion frame's \<open>send\<close> is not caught by the code and ends the callback.\<close>

definition trySend :: "nat \<Rightarrow> byte list \<Rightarrow> peer \<Rightarrow> peer" where
  "trySend tid chunkData st =
     (if length (transfers st) \<le> tid then st
      else case dataChannel st of
        None \<Rightarrow> emit (Console (Uncaught TypeError)) st
      | Some ch \<Rightarrow>
          if 16 * 1024 * 1024 < bufferedAmount ch
          then st\<lparr>tasks := tasks st @ [TrySendTimer 50 tid chunkData]\<rparr>
          else case dc_send (Binary chunkData) ch of
            Inl err \<Rightarrow>
              if err = SendQueueFull
              then st\<lparr>tasks := tasks st @ [TrySendTimer 50 tid chunkData]\<rparr>
              else emit (Console (ErrUnexpectedSend err)) st
          | Inr ch1 \<Rightarrow>
              (let t = (transfers st ! tid)\<lparr>chunkIndex := chunkIndex (transfers st ! tid) + 1\<rparr>;
                   st1 = emit (Callback (OnProgress (progress (chunkIndex t) (t_totalChunks t))))
                           (emit (Sent (Binary chunkData))
                              (st\<lparr>dataChannel := Some ch1,
                                  transfers := (transfers st)[tid := t]\<rparr>))
               in if chunkIndex t < t_totalChunks t then sendNextChunk tid st1
                  else case dc_send (FileCompleteMsg (t_fileId t)) ch1 of
                    Inl err \<Rightarrow> emit (Console (Uncaught err)) st1
                  | Inr ch2 \<Rightarrow>
                      emit (Sent (FileCompleteMsg (t_fileId t))) (st1\<lparr>dataChannel := Some ch2\<rparr>)))"

text \<open>\<open>reader.onload\<close>; \<open>None\<close> stands for a result that is not an \<open>ArrayBuffer\<close>.\<close>

definition reader_onload :: "nat \<Rightarrow> byte list option \<Rightarrow> peer \<Rightarrow> peer" where
  "reader_onload tid result st =
     (if length (transfers st) \<le> tid then st
      else case result of
        None \<Rightarrow> st
      | Some chunkData \<Rightarrow>
          trySend tid chunkData
            (st\<lparr>transfers := (transfers st)[tid := (transfers st ! tid)\<lparr>isReading := False\<rparr>]\<rparr>))"

definition reader_onerror :: "nat \<Rightarrow> peer \<Rightarrow> peer" where
  "reader_onerror tid st =
     (if length (transfers st) \<le> tid then st
      else emit (Console ErrFileReader)
             (st\<lparr>transfers := (transfers st)[tid := (transfers st ! tid)\<lparr>isReading := False\<rparr>]\<rparr>))"

text \<open>\<open>Math.ceil(file.size / CHUNK_SIZE)\<close>. The division is by a power of two, which is
  exact on doubles, so the result is the ceiling of the exact quotient.\<close>

definition chunk_count :: "nat \<Rightarrow> nat" where
  "chunk_count s = nat \<lceil>(of_nat s :: rat) / of_nat CHUNK_SIZE\<rceil>"

text \<open>\<open>sendFile(file)\<close>; \<open>fid\<close> is \<open>Date.now().toString()\<close>. An exception of the metadata
  frame's \<open>send\<close> leaves \<open>sendFile\<close> (\<open>Inl\<close>).\<close>

definition sendFile :: "File \<Rightarrow> string \<Rightarrow> peer \<Rightarrow> js_error + peer" where
  "sendFile f fid st =
     (case dataChannel st of
        None \<Rightarrow> Inr (emit (Console WarnChannelNotReady) st)
      | Some ch \<Rightarrow>
          if readyState ch \<noteq> Open then Inr (emit (Console WarnChannelNotReady) st)
          else let n = chunk_count (file_size f);
                   meta = \<lparr>fileId = fid, name = file_name f, size_m = file_size f,
                           type_m = file_type f, totalChunks = n\<rparr>
               in case dc_send (FileInfoMsg meta) ch of
                    Inl err \<Rightarrow> Inl err
                  | Inr ch1 \<Rightarrow>
                      (let tid = length (transfers st);
                           ch2 = ch1\<lparr>bufferedAmountLowThreshold := 1024 * 1024,
                                     onbufferedamountlow := Some tid\<rparr>;
                           t = \<lparr>t_file = f, t_fileId = fid, t_totalChunks = n,
                                chunkIndex = 0, isReading = False\<rparr>
                       in Inr (sendNextChunk tid
                                 (emit (Sent (FileInfoMsg meta))
                                    (st\<lparr>dataChannel := Some ch2,
                                        transfers := transfers st @ [t]\<rparr>)))))"

subsection \<open>The event loop\<close>

text \<open>
  What can happen to the sender between calls of its interface: pending task \<open>k\<close> is a
  reader that loads (with an \<open>ArrayBuffer\<close>, or with another result) or fails, pending task
  \<open>k\<close> is a timer that fires, the channel changes its ready state, the channel transmits
  \<open>n\<close> of its queued bytes. The channel fires \<open>bufferedamountlow\<close> when \<open>bufferedAmount\<close>
  falls from above the threshold to or below it; the handler then runs at once.
\<close>

datatype env_event =
    ReaderLoad nat
  | ReaderLoadOther nat
  | ReaderError nat
  | TimerFire nat
  | SetReadyState ready_state
  | Drain nat

definition step :: "env_event \<Rightarrow> peer \<Rightarrow> peer" where
  "step e st =
     (case e of
        ReaderLoad k \<Rightarrow>
          (if length (tasks st) \<le> k then st
           else case tasks st ! k of
             Reader tid d \<Rightarrow> reader_onload tid (Some d) (st\<lparr>tasks := remove_nth k (tasks st)\<rparr>)
           | TrySendTimer ms tid d \<Rightarrow> st)
      | ReaderLoadOther k \<Rightarrow>
          (if length (tasks st) \<le> k then st
           else case tasks st ! k of
             Reader tid d \<Rightarrow> reader_onload tid None (st\<lparr>tasks := remove_nth k (tasks st)\<rparr>)
           | TrySendTimer ms tid d \<Rightarrow> st)
      | ReaderError k \<Rightarrow>
          (if length (tasks st) \<le> k then st
           else case tasks st ! k of
             Reader tid d \<Rightarrow> reader_onerror tid (st\<lparr>tasks := remove_nth k (tasks st)\<rparr>)
           | TrySendTimer ms tid d \<Rightarrow> st)
      | TimerFire k \<Rightarrow>
          (if length (tasks st) \<le> k then st
           else case tasks st ! k of
             Reader tid d \<Rightarrow> st
           | TrySendTimer ms tid d \<Rightarrow> trySend tid d (st\<lparr>tasks := remove_nth k (tasks st)\<rparr>))
      | SetReadyState r \<Rightarrow>
          (case dataChannel st of
             None \<Rightarrow> st
           | Some ch \<Rightarrow> st\<lparr>dataChannel := Some (ch\<lparr>readyState := r\<rparr>)\<rparr>)
      | Drain n \<Rightarrow>
          (case dataChannel st of
             None \<Rightarrow> st
           | Some ch \<Rightarrow>
               (let ch1 = ch\<lparr>bufferedAmount := bufferedAmount ch - n\<rparr>;
                    st1 = st\<lparr>dataChannel := Some ch1\<rparr>
                in if bufferedAmountLowThreshold ch < bufferedAmount ch
                      \<and> bufferedAmount ch1 \<le> bufferedAmountLowThreshold ch
                   then (case onbufferedamountlow ch of
                           None \<Rightarrow> st1
                         | Some tid \<Rightarrow> sendNextChunk tid st1)
                   else st1)))"

fun exec :: "env_event list \<Rightarrow> peer \<Rightarrow> peer" where
  "exec [] st = st"
| "exec (e # es) st = exec es (step e st)"

text \<open>A transfer is in flight while chunks of it remain to be sent.\<close>

definition in_flight :: "peer \<Rightarrow> bool" where
  "in_flight st = list_ex (\<lambda>t. chunkIndex t < t_totalChunks t) (transfers st)"

text \<open>
  The sender left to itself on a channel that transmits: the oldest pending read
  completes, the oldest pending timer fires, and when nothing is pending while a transfer
  is still in flight the channel transmits everything it holds. At most \<open>k\<close> such events
  are played.
\<close>

fun run_sender :: "nat \<Rightarrow> peer \<Rightarrow> peer" where
  "run_sender 0 st = st"
| "run_sender (Suc k) st =
     (case tasks st of
        Reader tid d # ts \<Rightarrow> run_sender k (step (ReaderLoad 0) st)
      | TrySendTimer ms tid d # ts \<Rightarrow> run_sender k (step (TimerFire 0) st)
      | [] \<Rightarrow>
          (case dataChannel st of
             None \<Rightarrow> st
           | Some ch \<Rightarrow>
               if in_flight st then run_sender k (step (Drain (bufferedAmount ch)) st)
               else st))"

section \<open>Course of a transfer\<close>

text \<open>The frames handed to the data channel so far, the metadata \<open>sendFile\<close> builds for a
  file, and the chunk \<open>sendNextChunk\<close> slices for index \<open>i\<close>.\<close>

definition sent_frames :: "peer \<Rightarrow> frame list" where
  "sent_frames st = concat (map (\<lambda>a. case a of Sent f \<Rightarrow> [f] | _ \<Rightarrow> []) (history st))"

definition meta_of :: "File \<Rightarrow> string \<Rightarrow> FileMeta" where
  "meta_of f fid =
     \<lparr>fileId = fid, name = file_name f, size_m = file_size f, type_m = file_type f,
      totalChunks = chunk_count (file_size f)\<rparr>"

definition chunk_of :: "File \<Rightarrow> nat \<Rightarrow> byte list" where
  "chunk_of f i =
     slice_file f (i * CHUNK_SIZE) (min (i * CHUNK_SIZE + CHUNK_SIZE) (file_size f))"

text \<open>
  The states a lone transfer passes through, in closed form. \<open>transfer_at\<close> is the sender
  after \<open>sendFile\<close> on state \<open>st\<close> with channel \<open>ch\<close> once \<open>i\<close> chunks have been handed over,
  with a read of chunk \<open>i\<close> pending (\<open>r\<close>) or not, and \<open>b\<close> bytes queued; \<open>transfer_done\<close>
  is the sender after the completion frame.
\<close>

definition chunk_actions :: "File \<Rightarrow> nat \<Rightarrow> action list" where
  "chunk_actions f i =
     concat (map (\<lambda>k. [Sent (Binary (chunk_of f k)),
                        Callback (OnProgress (progress (Suc k) (chunk_count (file_size f))))])
               [0..<i])"

definition transfer_at :: "peer \<Rightarrow> channel \<Rightarrow> File \<Rightarrow> string \<Rightarrow> nat \<Rightarrow> bool \<Rightarrow> nat \<Rightarrow> peer" where
  "transfer_at st ch f fid i r b =
     st\<lparr>dataChannel :=
          Some (ch\<lparr>bufferedAmount := b,
                   bufferedAmountLowThreshold := 1024 * 1024,
                   outbox := outbox ch @ FileInfoMsg (meta_of f fid)
                               # map (\<lambda>k. Binary (chunk_of f k)) [0..<i],
                   onbufferedamountlow := Some (length (transfers st))\<rparr>),
        transfers := transfers st @
          [\<lparr>t_file = f, t_fileId = fid, t_totalChunks = chunk_count (file_size f),
            chunkIndex = i, isReading = r\<rparr>],
        tasks := (if r then [Reader (length (transfers st)) (chunk_of f i)] else []),
        history := history st @ Sent (FileInfoMsg (meta_of f fid)) # chunk_actions f i\<rparr>"

definition transfer_done :: "peer \<Rightarrow> channel \<Rightarrow> File \<Rightarrow> string \<Rightarrow> nat \<Rightarrow> peer" where
  "transfer_done st ch f fid b =
     st\<lparr>dataChannel :=
          Some (ch\<lparr>bufferedAmount := b,
                   bufferedAmountLowThreshold := 1024 * 1024,
                   outbox := outbox ch @ FileInfoMsg (meta_of f fid)
                               # map (\<lambda>k. Binary (chunk_of f k)) [0..<chunk_count (file_size f)]
                               @ [FileCompleteMsg fid],
                   onbufferedamountlow := Some (length (transfers st))\<rparr>),
        transfers := transfers st @
          [\<lparr>t_file = f, t_fileId = fid, t_totalChunks = chunk_count (file_size f),
            chunkIndex = chunk_count (file_size f), isReading = False\<rparr>],
        tasks := [],
        history := history st @ Sent (FileInfoMsg (meta_of f fid))
                     # chunk_actions f (chunk_count (file_size f)) @ [Sent (FileCompleteMsg fid)]\<rparr>"

text \<open>The progress values among a sequence of callbacks, and the values a transfer of \<open>n\<close>
  chunks reports: \<open>Math.floor((k / n) * 100)\<close> for \<open>k = 1, \<dots>, n\<close>.\<close>

definition progress_values :: "event list \<Rightarrow> jsnum list" where
  "progress_values es = concat (map (\<lambda>e. case e of OnProgress p \<Rightarrow> [p] | _ \<Rightarrow> []) es)"

definition expected_progress :: "nat \<Rightarrow> jsnum list" where
  "expected_progress n = map (\<lambda>k. progress (Suc k) n) [0..<n]"

text \<open>\<open>handleSend\<close> of \<open>FileTransferPanel.tsx\<close>, for a chosen file: the button calls
  \<open>sendFile\<close> when the data channel is open; an exception of \<open>sendFile\<close> is not caught.\<close>

definition handleSend :: "File \<Rightarrow> string \<Rightarrow> peer \<Rightarrow> peer" where
  "handleSend f fid st =
     (case dataChannel st of
        None \<Rightarrow> st
      | Some ch \<Rightarrow>
          if readyState ch = Open
          then (case sendFile f fid st of
                  Inr st1 \<Rightarrow> st1
                | Inl err \<Rightarrow> emit (Console (Uncaught err)) st)
          else st)"

section \<open>The life of the object\<close>

text \<open>
  Everything that can happen to a \<open>PeerTransfer\<close> object after its construction: a call of
  one of its public methods (\<open>setRemoteId\<close>, \<open>initPeerConnection\<close>, \<open>sendFile\<close>), or one
  of the handlers it installed being run by the browser: \<open>ws.onmessage\<close>, a pending
  \<open>sendSignal\<close> retry, \<open>onicecandidate\<close>, \<open>ondatachannel\<close> and \<open>onconnectionstatechange\<close> of
  the peer connection (the first of these exists only once the connection object does),
  \<open>onmessage\<close> of the data channel (installed only on a channel), and the events of the
  sender's event loop. The web socket changes its ready state on its own. An exception of
  \<open>sendFile\<close> is thrown before the object has changed; nothing catches it, and it shows
  on the console.
\<close>

datatype call =
    SetRemoteId string
  | InitPeerConnection bool browser
  | SendFile File string
  | WsMessage browser envelope
  | WsReadyState ws_state
  | SignalTimerFire nat
  | IceCandidate "string option"
  | DataChannelEvent channel
  | ConnectionStateChange conn_state
  | ChannelMessage frame
  | Loop env_event

definition apply_call :: "call \<Rightarrow> peer \<Rightarrow> peer" where
  "apply_call c st =
     (case c of
        SetRemoteId i \<Rightarrow> setRemoteId i st
      | InitPeerConnection init b \<Rightarrow> initPeerConnection init b st
      | SendFile f fid \<Rightarrow>
          (case sendFile f fid st of
             Inr st1 \<Rightarrow> st1
           | Inl err \<Rightarrow> emit (Console (Uncaught err)) st)
      | WsMessage b msg \<Rightarrow> handleSignal b msg st
      | WsReadyState s \<Rightarrow> st\<lparr>ws := (ws st)\<lparr>ws_readyState := s\<rparr>\<rparr>
      | SignalTimerFire k \<Rightarrow> signal_timer_fire k st
      | IceCandidate c \<Rightarrow>
          (case peerConnection st of None \<Rightarrow> st | Some pc \<Rightarrow> pc_onicecandidate c st)
      | DataChannelEvent ch \<Rightarrow> pc_ondatachannel ch st
      | ConnectionStateChange s \<Rightarrow> pc_onconnectionstatechange s st
      | ChannelMessage fr \<Rightarrow>
          (case dataChannel st of None \<Rightarrow> st | Some ch \<Rightarrow> dc_onmessage fr st)
      | Loop e \<Rightarrow> step e st)"

fun run_calls :: "call list \<Rightarrow> peer \<Rightarrow> peer" where
  "run_calls [] st = st"
| "run_calls (c # cs) st = run_calls cs (apply_call c st)"

section \<open>Observations on a run\<close>





text \<open>Whether every report of progress 100 in a history comes after a completion frame
  was handed to the channel; \<open>q\<close> tells whether one has been seen so far.\<close>

fun hundred_after_completion :: "bool \<Rightarrow> action list \<Rightarrow> bool" where
  "hundred_after_completion q [] = True"
| "hundred_after_completion q (a # as) =
     (case a of
        Sent (FileCompleteMsg i) \<Rightarrow> hundred_after_completion True as
      | Callback (OnProgress p) \<Rightarrow>
          (if p = Num 100 then q else True) \<and> hundred_after_completion q as
      | _ \<Rightarrow> hundred_after_completion q as)"

section \<open>Example inputs\<close>

definition example_channel :: channel where
  "example_channel =
     \<lparr>readyState = Open, bufferedAmount = 0, bufferedAmountLowThreshold = 0,
      sendQueueLimit = None, textBytes = (\<lambda>f. 64), outbox = [],
      onbufferedamountlow = None\<rparr>"

definition example_browser :: browser where
  "example_browser =
     \<lparr>created_channel = example_channel\<lparr>readyState := Connecting\<rparr>,
      created_sdp = Some ''v=0''\<rparr>"

definition example_sender :: peer where
  "example_sender = (new_peer ''p1'')\<lparr>dataChannel := Some example_channel\<rparr>"

definition example_file :: File where
  "example_file =
     \<lparr>file_name = ''a.txt'', file_type = ''text/plain'', file_bytes = [104, 105, 33]\<rparr>"

definition example_empty_file :: File where
  "example_empty_file =
     \<lparr>file_name = ''empty.bin'', file_type = ''application/octet-stream'', file_bytes = []\<rparr>"

text \<open>The sender after \<open>sendFile(example_file)\<close>: the metadata frame is queued and the
  only chunk is being read.\<close>

definition example_busy_sender :: peer where
  "example_busy_sender =
     (case sendFile example_file ''1700000000000'' example_sender of
        Inr st \<Rightarrow> st | Inl e \<Rightarrow> example_sender)"

definition example_offer :: envelope where
  "example_offer =
     \<lparr>kind = Offer, sdp = Some ''v=0'', candidate = None, e_from = ''p1'', e_to = Some ''p2''\<rparr>"

definition example_candidate :: envelope where
  "example_candidate =
     \<lparr>kind = Candidate, sdp = None, candidate = Some ''host'', e_from = ''p1'', e_to = Some ''p2''\<rparr>"

text \<open>The file of the end-to-end example of the specification.\<close>

definition example_report :: File where
  "example_report =
     \<lparr>file_name = ''report.bin'', file_type = ''application/octet-stream'',
      file_bytes = replicate 40000 0\<rparr>"




text \<open>A sender whose channel holds 16777088 unsent bytes: two metadata frames fill it to
  16 MiB exactly.\<close>

definition example_nearly_full_sender :: peer where
  "example_nearly_full_sender =
     (new_peer ''p1'')\<lparr>dataChannel := Some (example_channel\<lparr>bufferedAmount := 16777088\<rparr>)\<rparr>"



text \<open>A file of two chunks, and a sender whose channel has a send queue bounded at 16 MiB
  that is nearly full.\<close>

definition example_two_chunk_file :: File where
  "example_two_chunk_file =
     \<lparr>file_name = ''b.bin'', file_type = ''application/octet-stream'',
      file_bytes = replicate 16384 1 @ [2]\<rparr>"

definition example_bounded_sender :: peer where
  "example_bounded_sender =
     (new_peer ''p1'')
       \<lparr>dataChannel := Some (example_channel
           \<lparr>bufferedAmount := 16777052, sendQueueLimit := Some (16 * 1024 * 1024)\<rparr>)\<rparr>"

text \<open>
  Three lives of an object. The caller has created the connection and its channel, still
  connecting. An object that has seen only a stray candidate, a data channel event, a
  frame and a drain: it is still idle. The caller's channel has opened, the connection
  reported \<open>connected\<close> and then \<open>disconnected\<close>.
\<close>

definition example_negotiating_sender :: peer where
  "example_negotiating_sender =
     run_calls [SetRemoteId ''p2'', InitPeerConnection True example_browser] (new_peer ''p1'')"

definition example_idle_calls :: "call list" where
  "example_idle_calls =
     [SetRemoteId ''p1'', WsReadyState WS_OPEN, WsMessage example_browser example_candidate,
      DataChannelEvent example_channel, ChannelMessage (Binary [1]), Loop (Drain 5)]"

definition example_disconnected_sender :: peer where
  "example_disconnected_sender =
     run_calls [SetRemoteId ''p2'', InitPeerConnection True example_browser,
                Loop (SetReadyState Open), ConnectionStateChange CS_connected,
                ConnectionStateChange CS_disconnected] (new_peer ''p1'')"

text \<open>A web socket that is still connecting at the first three invocations and open from
  the fourth on.\<close>

definition example_socket_states :: "nat \<Rightarrow> ws_state" where
  "example_socket_states k = (if k < 3 then WS_CONNECTING else WS_OPEN)"

section \<open>Receiver: a completion frame outside a transfer\<close>

text \<open>
  Claim C6. In every receiver state with no transfer in progress (\<open>receivingFile\<close> is
  undefined: no metadata frame since the last reset), a completion frame fires no event
  and leaves the whole state as it was.
\<close>

theorem complete_without_transfer_ignored:
  "receivingFile st = None \<Longrightarrow> dc_onmessage (FileCompleteMsg fid) st = st"
  by (simp add: dc_onmessage_def handleComplete_def)

theorem complete_without_transfer_ignored_witness:
  "receivingFile (new_peer ''p2'') = None
   \<and> dc_onmessage (FileCompleteMsg ''1700000000000'') (new_peer ''p2'') = new_peer ''p2''"
  using complete_without_transfer_ignored [of "new_peer ''p2''" "''1700000000000''"]
  by (simp add: new_peer_def)

section \<open>Signaling: addressing and the handshake\<close>

lemma sendSignal_keeps [simp]:
  "peerConnection (sendSignal m a st) = peerConnection st"
  "remoteId (sendSignal m a st) = remoteId st"
  "peerId (sendSignal m a st) = peerId st"
  by (simp_all add: sendSignal_def emit_def)

lemma idle_iff: "session_state_of st = S_Idle \<longleftrightarrow> peerConnection st = None"
  by (simp add: session_state_of_def split: option.splits conn_state.splits)

text \<open>
  Claim C8. An inbound envelope whose \<open>to\<close> field is not the local identity is discarded:
  \<open>handleSignal\<close> returns the state it was given, so nothing is processed, no callback is
  fired, nothing is sent and no timer is left.
\<close>

theorem foreign_envelope_discarded:
  "e_to msg \<noteq> Some (peerId st) \<Longrightarrow> handleSignal b msg st = st"
  by (simp add: handleSignal_def)

theorem foreign_envelope_discarded_witness:
  "e_to example_offer \<noteq> Some (peerId (new_peer ''p3''))
   \<and> handleSignal example_browser example_offer (new_peer ''p3'') = new_peer ''p3''"
  using foreign_envelope_discarded [of example_offer "new_peer ''p3''" example_browser]
  by (simp add: example_offer_def new_peer_def)

text \<open>
  Claim C7. In the Idle state (no connection object yet), an offer addressed to the local
  identity from peer \<open>A\<close> moves the session to Negotiating and makes \<open>A\<close> the remote
  identity, whereas a candidate envelope (no offer or answer has been processed) changes
  nothing.
\<close>

theorem idle_offer_negotiates_candidate_ignored:
  assumes "session_state_of st = S_Idle"
  shows "(kind msg = Offer \<and> e_to msg = Some (peerId st) \<longrightarrow>
            session_state_of (handleSignal b msg st) = S_Negotiating
            \<and> remoteId (handleSignal b msg st) = Some (e_from msg))
         \<and> (kind msg = Candidate \<longrightarrow> handleSignal b msg st = st)"
proof -
  from assms have pc: "peerConnection st = None" by (simp add: idle_iff)
  have a: "session_state_of (handleSignal b msg st) = S_Negotiating
            \<and> remoteId (handleSignal b msg st) = Some (e_from msg)"
    if "kind msg = Offer" "e_to msg = Some (peerId st)"
    using that by (simp add: handleSignal_def initPeerConnection_def session_state_of_def Let_def)
  have c: "handleSignal b msg st = st" if "kind msg = Candidate"
    using that pc by (simp add: handleSignal_def)
  from a c show ?thesis by blast
qed

theorem idle_offer_negotiates_candidate_ignored_witness:
  "session_state_of (new_peer ''p2'') = S_Idle
   \<and> kind example_offer = Offer \<and> e_to example_offer = Some (peerId (new_peer ''p2''))
   \<and> session_state_of (handleSignal example_browser example_offer (new_peer ''p2'')) = S_Negotiating
   \<and> remoteId (handleSignal example_browser example_offer (new_peer ''p2'')) = Some ''p1''
   \<and> kind example_candidate = Candidate
   \<and> handleSignal example_browser example_candidate (new_peer ''p2'') = new_peer ''p2''"
proof -
  have idle: "session_state_of (new_peer ''p2'') = S_Idle"
    by (simp add: session_state_of_def new_peer_def)
  show ?thesis
    using idle
      idle_offer_negotiates_candidate_ignored [OF idle, of example_offer example_browser]
      idle_offer_negotiates_candidate_ignored [OF idle, of example_candidate example_browser]
    by (simp add: example_offer_def example_candidate_def new_peer_def)
qed

section \<open>Signal relay client: bounded retry\<close>

lemma remove_nth_last [simp]: "remove_nth (length xs) (xs @ [x]) = xs"
  by (simp add: remove_nth_def)

lemma sendSignal_retries_done:
  "length (signalTimers st) \<le> base \<Longrightarrow>
     sendSignal_retries fuel rs base calls waited st = Some (st, calls, waited)"
  by (cases fuel) (simp_all add: sendSignal_retries.simps)

lemma sendSignal_retries_gen:
  assumes "signalTimers st = T @ [(100, msg, a)]" "length T = base"
    and "1 \<le> a" "a \<le> 20" "21 \<le> fuel + a"
  shows "\<exists>st' n. sendSignal_retries fuel rs base a w st = Some (st', n, w + 100 * (n - a))
     \<and> a < n \<and> n \<le> 21
     \<and> (\<forall>k. a \<le> k \<and> k < n - 1 \<longrightarrow> rs k = WS_CONNECTING)
     \<and> signalTimers st' = T
     \<and> ((rs (n - 1) = WS_OPEN
          \<and> ws_sent (ws st') = ws_sent (ws st) @
               [\<lparr>kind = kind msg, sdp = sdp msg, candidate = candidate msg,
                 e_from = peerId st, e_to = remoteId st\<rparr>]
          \<and> history st' = history st)
         \<or> (rs (n - 1) \<noteq> WS_OPEN \<and> (rs (n - 1) = WS_CONNECTING \<longrightarrow> n = 21)
          \<and> ws_sent (ws st') = ws_sent (ws st)
          \<and> history st' = history st @ [Console (WarnDroppingSignal msg)]))"
  using assms
proof (induction fuel arbitrary: a w st)
  case 0
  then show ?case by simp
next
  case (Suc fuel)
  let ?st0 = "st\<lparr>ws := (ws st)\<lparr>ws_readyState := rs a\<rparr>\<rparr>"
  let ?st1 = "signal_timer_fire base ?st0"
  have fire: "?st1 = sendSignal msg a (?st0\<lparr>signalTimers := T\<rparr>)"
    using Suc.prems(1) Suc.prems(2) [symmetric] by (simp add: signal_timer_fire_def)
  have unf: "sendSignal_retries (Suc fuel) rs base a w st =
      sendSignal_retries fuel rs base (a + 1) (w + 100) ?st1"
    using Suc.prems(1) Suc.prems(2) [symmetric] by (simp add: sendSignal_retries.simps)
  show ?case
  proof (cases "rs a = WS_CONNECTING \<and> a < 20")
    case True
    then have st1: "signalTimers ?st1 = T @ [(100, msg, a + 1)]"
      unfolding fire by (simp add: sendSignal_def MAX_RETRIES_def RETRY_DELAY_def)
    from True Suc.prems have p: "1 \<le> a + 1" "a + 1 \<le> 20" "21 \<le> fuel + (a + 1)" by simp_all
    from Suc.IH [OF st1 Suc.prems(2) p, of "w + 100"]
    obtain st' n where ih:
      "sendSignal_retries fuel rs base (a + 1) (w + 100) ?st1
         = Some (st', n, w + 100 + 100 * (n - (a + 1)))"
      "a + 1 < n" "n \<le> 21"
      "\<forall>k. a + 1 \<le> k \<and> k < n - 1 \<longrightarrow> rs k = WS_CONNECTING"
      "signalTimers st' = T"
      "(rs (n - 1) = WS_OPEN
          \<and> ws_sent (ws st') = ws_sent (ws ?st1) @
               [\<lparr>kind = kind msg, sdp = sdp msg, candidate = candidate msg,
                 e_from = peerId ?st1, e_to = remoteId ?st1\<rparr>]
          \<and> history st' = history ?st1)
         \<or> (rs (n - 1) \<noteq> WS_OPEN \<and> (rs (n - 1) = WS_CONNECTING \<longrightarrow> n = 21)
          \<and> ws_sent (ws st') = ws_sent (ws ?st1)
          \<and> history st' = history ?st1 @ [Console (WarnDroppingSignal msg)])"
      by blast
    have same: "ws_sent (ws ?st1) = ws_sent (ws st)" "history ?st1 = history st"
      "peerId ?st1 = peerId st" "remoteId ?st1 = remoteId st"
      unfolding fire using True by (simp_all add: sendSignal_def MAX_RETRIES_def)
    from ih(2) have "n - a = Suc (n - (a + 1))" by arith
    then have w: "w + 100 + 100 * (n - (a + 1)) = w + 100 * (n - a)" by simp
    have k: "rs k = WS_CONNECTING" if "a \<le> k" "k < n - 1" for k
    proof (cases "k = a")
      case True
      with \<open>rs a = WS_CONNECTING \<and> a < 20\<close> show ?thesis by simp
    next
      case False
      with that have "a + 1 \<le> k \<and> k < n - 1" by simp
      with ih(4) show ?thesis by blast
    qed
    note ih6 = ih(6) [unfolded same]
    show ?thesis
      unfolding unf ih(1) w using ih(2,3,5) ih6 k by auto
  next
    case False
    then have t: "signalTimers ?st1 = T"
      unfolding fire by (auto simp: sendSignal_def emit_def MAX_RETRIES_def)
    then have "sendSignal_retries fuel rs base (a + 1) (w + 100) ?st1
        = Some (?st1, a + 1, w + 100)"
      using Suc.prems(2) by (intro sendSignal_retries_done) simp
    with unf have res: "sendSignal_retries (Suc fuel) rs base a w st
        = Some (?st1, a + 1, w + 100 * (a + 1 - a))" by simp
    have "(rs a = WS_OPEN
          \<and> ws_sent (ws ?st1) = ws_sent (ws st) @
               [\<lparr>kind = kind msg, sdp = sdp msg, candidate = candidate msg,
                 e_from = peerId st, e_to = remoteId st\<rparr>]
          \<and> history ?st1 = history st)
         \<or> (rs a \<noteq> WS_OPEN \<and> (rs a = WS_CONNECTING \<longrightarrow> a + 1 = 21)
          \<and> ws_sent (ws ?st1) = ws_sent (ws st)
          \<and> history ?st1 = history st @ [Console (WarnDroppingSignal msg)])"
      unfolding fire using False Suc.prems(4)
      by (cases "rs a") (auto simp: sendSignal_def emit_def envelope_of_def MAX_RETRIES_def)
    with res t Suc.prems(4) show ?thesis
      by (intro exI [of _ ?st1] exI [of _ "a + 1"]) auto
  qed
qed

text \<open>
  Claim C9. With fuel for 20 timers, the run of a \<open>sendSignal(msg)\<close> call ends, so every
  invocation terminates. It makes \<open>n\<close> invocations with \<open>1 \<le> n \<le> 21\<close>, that is at most 20
  retries, each fired by the timer the invocation before it left, after the 100 ms that
  timer was set with; every invocation but the last found the socket still connecting; an
  open socket at the first invocation means one invocation. At the end the call has left
  no timer, and either the last invocation found the socket open and the envelope (the
  message with \<open>from\<close> the local and \<open>to\<close> the remote identity) was sent exactly once with
  nothing logged, or it was not sent at all and one warning was logged (the socket was
  neither open nor connecting, or it was still connecting at attempt 20).
\<close>

theorem sendSignal_terminates_bounded:
  assumes "20 \<le> fuel"
  shows "\<exists>st' n waited.
       sendSignal_run fuel rs msg st = Some (st', n, waited)
     \<and> 1 \<le> n \<and> n \<le> 21 \<and> waited = 100 * (n - 1)
     \<and> (\<forall>k < n - 1. rs k = WS_CONNECTING)
     \<and> (rs 0 = WS_OPEN \<longrightarrow> n = 1)
     \<and> signalTimers st' = signalTimers st
     \<and> ((rs (n - 1) = WS_OPEN
          \<and> ws_sent (ws st') = ws_sent (ws st) @
               [\<lparr>kind = kind msg, sdp = sdp msg, candidate = candidate msg,
                 e_from = peerId st, e_to = remoteId st\<rparr>]
          \<and> history st' = history st)
         \<or> (rs (n - 1) \<noteq> WS_OPEN \<and> (rs (n - 1) = WS_CONNECTING \<longrightarrow> n = 21)
          \<and> ws_sent (ws st') = ws_sent (ws st)
          \<and> history st' = history st @ [Console (WarnDroppingSignal msg)]))"
proof -
  let ?st0 = "st\<lparr>ws := (ws st)\<lparr>ws_readyState := rs 0\<rparr>\<rparr>"
  let ?st1 = "sendSignal msg 0 ?st0"
  let ?base = "length (signalTimers st)"
  have run: "sendSignal_run fuel rs msg st = sendSignal_retries fuel rs ?base 1 0 ?st1"
    by (simp add: sendSignal_run_def)
  show ?thesis
  proof (cases "rs 0 = WS_CONNECTING")
    case True
    then have t: "signalTimers ?st1 = signalTimers st @ [(100, msg, 1)]"
      by (simp add: sendSignal_def MAX_RETRIES_def RETRY_DELAY_def)
    have same: "ws_sent (ws ?st1) = ws_sent (ws st)" "history ?st1 = history st"
      "peerId ?st1 = peerId st" "remoteId ?st1 = remoteId st"
      using True by (simp_all add: sendSignal_def MAX_RETRIES_def)
    from assms have f: "21 \<le> fuel + 1" by simp
    from sendSignal_retries_gen [OF t refl _ _ f, of rs 0]
    obtain st' n where g:
      "sendSignal_retries fuel rs ?base 1 0 ?st1 = Some (st', n, 0 + 100 * (n - 1))"
      "1 < n" "n \<le> 21"
      "\<forall>k. 1 \<le> k \<and> k < n - 1 \<longrightarrow> rs k = WS_CONNECTING"
      "signalTimers st' = signalTimers st"
      "(rs (n - 1) = WS_OPEN
          \<and> ws_sent (ws st') = ws_sent (ws ?st1) @
               [\<lparr>kind = kind msg, sdp = sdp msg, candidate = candidate msg,
                 e_from = peerId ?st1, e_to = remoteId ?st1\<rparr>]
          \<and> history st' = history ?st1)
         \<or> (rs (n - 1) \<noteq> WS_OPEN \<and> (rs (n - 1) = WS_CONNECTING \<longrightarrow> n = 21)
          \<and> ws_sent (ws st') = ws_sent (ws ?st1)
          \<and> history st' = history ?st1 @ [Console (WarnDroppingSignal msg)])"
      by auto
    have k: "rs k = WS_CONNECTING" if "k < n - 1" for k
    proof (cases "k = 0")
      case True
      with \<open>rs 0 = WS_CONNECTING\<close> show ?thesis by simp
    next
      case False
      with that g(4) show ?thesis by simp
    qed
    note g6 = g(6) [unfolded same]
    show ?thesis
      unfolding run g(1) using g(2,3,5) g6 k True by auto
  next
    case False
    then have t: "signalTimers ?st1 = signalTimers st"
      by (auto simp: sendSignal_def emit_def)
    then have "sendSignal_retries fuel rs ?base 1 0 ?st1 = Some (?st1, 1, 0)"
      by (intro sendSignal_retries_done) simp
    with run have res: "sendSignal_run fuel rs msg st = Some (?st1, 1, 100 * (1 - 1))" by simp
    have "(rs 0 = WS_OPEN
          \<and> ws_sent (ws ?st1) = ws_sent (ws st) @
               [\<lparr>kind = kind msg, sdp = sdp msg, candidate = candidate msg,
                 e_from = peerId st, e_to = remoteId st\<rparr>]
          \<and> history ?st1 = history st)
         \<or> (rs 0 \<noteq> WS_OPEN \<and> (rs 0 = WS_CONNECTING \<longrightarrow> (1::nat) = 21)
          \<and> ws_sent (ws ?st1) = ws_sent (ws st)
          \<and> history ?st1 = history st @ [Console (WarnDroppingSignal msg)])"
      using False
      by (cases "rs 0") (auto simp: sendSignal_def emit_def envelope_of_def)
    with res t show ?thesis
      by (intro exI [of _ ?st1] exI [of _ "1::nat"] exI [of _ "100 * (1 - 1)"]) auto
  qed
qed

theorem sendSignal_terminates_bounded_witness:
  "(20::nat) \<le> 20
   \<and> (\<exists>st'. sendSignal_run 20 example_socket_states
               \<lparr>kind = Offer, sdp = Some ''v=0'', candidate = None\<rparr> (new_peer ''p1'')
             = Some (st', 4, 300)
          \<and> ws_sent (ws st') =
               [\<lparr>kind = Offer, sdp = Some ''v=0'', candidate = None,
                 e_from = ''p1'', e_to = None\<rparr>]
          \<and> signalTimers st' = [] \<and> history st' = [])"
proof -
  let ?rs = example_socket_states
  let ?msg = "\<lparr>kind = Offer, sdp = Some ''v=0'', candidate = None\<rparr>"
  have f: "(20::nat) \<le> 20" by simp
  from sendSignal_terminates_bounded [OF f, of ?rs ?msg "new_peer ''p1''"]
  obtain st' n waited where run: "sendSignal_run 20 ?rs ?msg (new_peer ''p1'') = Some (st', n, waited)"
    and n1: "1 \<le> n" and w: "waited = 100 * (n - 1)"
    and conn: "\<forall>k < n - 1. ?rs k = WS_CONNECTING"
    and t: "signalTimers st' = signalTimers (new_peer ''p1'')"
    and d: "(?rs (n - 1) = WS_OPEN
          \<and> ws_sent (ws st') = ws_sent (ws (new_peer ''p1'')) @
               [\<lparr>kind = kind ?msg, sdp = sdp ?msg, candidate = candidate ?msg,
                 e_from = peerId (new_peer ''p1''), e_to = remoteId (new_peer ''p1'')\<rparr>]
          \<and> history st' = history (new_peer ''p1''))
         \<or> (?rs (n - 1) \<noteq> WS_OPEN \<and> (?rs (n - 1) = WS_CONNECTING \<longrightarrow> n = 21)
          \<and> ws_sent (ws st') = ws_sent (ws (new_peer ''p1''))
          \<and> history st' = history (new_peer ''p1'') @ [Console (WarnDroppingSignal ?msg)])"
    by blast
  have le: "n - 1 \<le> 3"
  proof (rule ccontr)
    assume "\<not> n - 1 \<le> 3"
    then have "3 < n - 1" by simp
    with conn have "?rs 3 = WS_CONNECTING" by blast
    then show False by (simp add: example_socket_states_def)
  qed
  have op: "?rs (n - 1) = WS_OPEN"
  proof (rule ccontr)
    assume no: "?rs (n - 1) \<noteq> WS_OPEN"
    then have "?rs (n - 1) = WS_CONNECTING" by (simp add: example_socket_states_def split: if_splits)
    with d no have "n = 21" by blast
    with le show False by simp
  qed
  then have "3 \<le> n - 1" by (simp add: example_socket_states_def split: if_splits)
  with le n1 have n: "n = 4" by simp
  from d op have "ws_sent (ws st') =
               [\<lparr>kind = Offer, sdp = Some ''v=0'', candidate = None,
                 e_from = ''p1'', e_to = None\<rparr>]" "history st' = []"
    by (simp_all add: new_peer_def)
  with run n w t show ?thesis by (simp add: new_peer_def)
qed

section \<open>Sender: chunk count and evaluation\<close>

lemma ceil_div_nat:
  assumes "0 < c"
  shows "nat \<lceil>(of_nat s :: rat) / of_nat c\<rceil> = (s + (c - 1)) div c"
proof -
  define q where "q = (s + (c - 1)) div c"
  have "q * c + (s + (c - 1)) mod c = s + (c - 1)"
    unfolding q_def by simp
  moreover have "(s + (c - 1)) mod c < c" using assms by simp
  ultimately have 1: "s \<le> q * c" and 2: "q * c < s + c" using assms by linarith+
  have "\<lceil>(of_nat s :: rat) / of_nat c\<rceil> = int q"
  proof (rule ceiling_unique)
    have "(of_nat (q * c) :: rat) < of_nat (s + c)" using 2 by (simp only: of_nat_less_iff)
    then show "of_int (int q) - 1 < (of_nat s :: rat) / of_nat c"
      using assms by (simp add: field_simps)
    have "(of_nat s :: rat) \<le> of_nat (q * c)" using 1 by (simp only: of_nat_le_iff)
    then show "(of_nat s :: rat) / of_nat c \<le> of_int (int q)"
      using assms by (simp add: field_simps)
  qed
  then show ?thesis by (simp add: q_def)
qed

lemma chunk_count_eq: "chunk_count s = (s + 16383) div 16384"
  unfolding chunk_count_def by (subst ceil_div_nat) (simp_all add: CHUNK_SIZE_def)

lemmas sender_defs =
  sendFile_def dc_send_def frame_size_def emit_def sendNextChunk_def trySend_def
  reader_onload_def reader_onerror_def step_def remove_nth_def Let_def file_size_def
  slice_file_def CHUNK_SIZE_def chunk_count_eq

lemma busy_value:
  "example_busy_sender =
     example_sender
       \<lparr>dataChannel := Some (example_channel
           \<lparr>bufferedAmount := 64, bufferedAmountLowThreshold := 1024 * 1024,
            outbox := [FileInfoMsg \<lparr>fileId = ''1700000000000'', name = ''a.txt'', size_m = 3,
                                   type_m = ''text/plain'', totalChunks = 1\<rparr>],
            onbufferedamountlow := Some 0\<rparr>),
        transfers := [\<lparr>t_file = example_file, t_fileId = ''1700000000000'', t_totalChunks = 1,
                       chunkIndex = 0, isReading = True\<rparr>],
        tasks := [Reader 0 [104, 105, 33]],
        history := [Sent (FileInfoMsg \<lparr>fileId = ''1700000000000'', name = ''a.txt'', size_m = 3,
                                   type_m = ''text/plain'', totalChunks = 1\<rparr>)]\<rparr>"
  by (simp add: example_busy_sender_def example_sender_def example_channel_def
      new_peer_def example_file_def sender_defs)

section \<open>Sender: the guard of \<open>sendFile\<close>\<close>

lemma sendSignal_fields [simp]:
  "peerConnection (sendSignal msg a st) = peerConnection st"
  "dataChannel (sendSignal msg a st) = dataChannel st"
  by (simp_all add: sendSignal_def emit_def)

lemma sendNextChunk_fields [simp]:
  "peerConnection (sendNextChunk tid st) = peerConnection st"
  "dataChannel (sendNextChunk tid st) = dataChannel st"
  by (simp_all add: sendNextChunk_def Let_def split: option.splits)

lemma trySend_fields:
  "peerConnection (trySend tid d st) = peerConnection st"
  "dataChannel st = None \<Longrightarrow> dataChannel (trySend tid d st) = None"
  by (simp_all add: trySend_def Let_def emit_def split: option.splits sum.splits)

lemma step_fields:
  "peerConnection (step e st) = peerConnection st"
  "dataChannel st = None \<Longrightarrow> dataChannel (step e st) = None"
  by (simp_all add: step_def reader_onload_def reader_onerror_def trySend_fields emit_def Let_def
      split: env_event.splits task.splits option.splits)

lemma sendFile_fields:
  "sendFile f fid st = Inr st1 \<Longrightarrow> peerConnection st1 = peerConnection st"
  "sendFile f fid st = Inr st1 \<Longrightarrow> dataChannel st = None \<Longrightarrow> dataChannel st1 = None"
  by (auto simp: sendFile_def Let_def emit_def split: option.splits sum.splits if_splits)

lemma dc_onmessage_fields [simp]:
  "peerConnection (dc_onmessage fr st) = peerConnection st"
  "dataChannel (dc_onmessage fr st) = dataChannel st"
  by (simp_all add: dc_onmessage_def handleFileInfo_def handleFileChunkBinary_def
      handleComplete_def emit_def Let_def split: frame.splits option.splits)

lemma apply_call_idle:
  assumes "peerConnection st = None \<longrightarrow> dataChannel st = None"
  shows "peerConnection (apply_call c st) = None \<longrightarrow> dataChannel (apply_call c st) = None"
proof (cases c)
  case (SendFile f fid)
  then show ?thesis using assms sendFile_fields [where f = f and fid = fid and st = st]
    by (auto simp: apply_call_def emit_def split: sum.splits)
next
  case (Loop e)
  then show ?thesis using assms step_fields [where e = e and st = st] by (auto simp: apply_call_def)
next
  case (InitPeerConnection init b)
  then show ?thesis
    by (simp add: apply_call_def initPeerConnection_def Let_def setupDataChannel_def)
next
  case (WsMessage b msg)
  then show ?thesis using assms
    by (auto simp: apply_call_def handleSignal_def initPeerConnection_def Let_def
        split: sig_kind.splits option.splits)
qed (use assms in \<open>auto simp: apply_call_def setRemoteId_def signal_timer_fire_def
      pc_onicecandidate_def pc_ondatachannel_def pc_onconnectionstatechange_def
      setupDataChannel_def emit_def Let_def split: option.splits prod.splits\<close>)

lemma run_calls_idle:
  "(peerConnection st = None \<longrightarrow> dataChannel st = None) \<Longrightarrow>
     peerConnection (run_calls cs st) = None \<longrightarrow> dataChannel (run_calls cs st) = None"
proof (induction cs arbitrary: st)
  case Nil
  then show ?case by simp
next
  case (Cons c cs)
  from Cons.IH [OF apply_call_idle [OF Cons.prems]] show ?case by simp
qed

lemma idle_no_channel:
  assumes "session_state_of (run_calls cs (new_peer pid)) = S_Idle"
  shows "dataChannel (run_calls cs (new_peer pid)) = None"
proof -
  have p: "peerConnection (run_calls cs (new_peer pid)) = None"
    using assms by (auto simp: session_state_of_def split: option.splits conn_state.splits)
  have "peerConnection (new_peer pid) = None \<longrightarrow> dataChannel (new_peer pid) = None"
    by (simp add: new_peer_def)
  then have "peerConnection (run_calls cs (new_peer pid)) = None
      \<longrightarrow> dataChannel (run_calls cs (new_peer pid)) = None"
    by (rule run_calls_idle)
  with p show ?thesis by simp
qed

lemma disconnected_value:
  "example_disconnected_sender =
     (new_peer ''p1'')
       \<lparr>remoteId := Some ''p2'',
        peerConnection := Some \<lparr>connectionState = CS_disconnected, initiator = True,
                                localDescription = Some (Offer, Some ''v=0''),
                                remoteDescription = None, iceCandidates = []\<rparr>,
        dataChannel := Some (example_channel\<lparr>bufferedAmountLowThreshold := 1024 * 1024\<rparr>),
        signalTimers := [(100, \<lparr>kind = Offer, sdp = Some ''v=0'', candidate = None\<rparr>, 1)],
        history := [Callback OnConnect, Callback OnDisconnect]\<rparr>"
  by (simp add: example_disconnected_sender_def apply_call_def setRemoteId_def
      initPeerConnection_def setupDataChannel_def sendSignal_def step_def
      pc_onconnectionstatechange_def emit_def Let_def new_peer_def example_browser_def
      example_channel_def MAX_RETRIES_def RETRY_DELAY_def)

text \<open>
  Claim C5, as amended. \<open>sendFile\<close> is a no-op with a logged warning exactly when the data
  channel is absent or not in the open state. In that case it returns normally, and the
  state it leaves is the state it found plus one warning on the console: no frame is
  emitted, no read is started, no transfer is recorded, no exception reaches the caller.
  This is so in every idle session, whatever has happened to the object since its
  construction: as long as no connection object exists there is no data channel. When the
  data channel is present and open, \<open>sendFile\<close> is not a no-op: either the channel refuses
  the metadata frame because its send queue is full and that exception reaches the caller,
  or the metadata frame is handed to the channel and a transfer is recorded. The guard
  reads nothing but the channel: neither the state of the connection nor a transfer in
  flight makes \<open>sendFile\<close> refuse (see the counterexample).
\<close>

theorem sendFile_noop_exactly_without_open_channel:
  "(dataChannel st = None \<or> (\<exists>ch. dataChannel st = Some ch \<and> readyState ch \<noteq> Open) \<longrightarrow>
      sendFile f fid st = Inr (st\<lparr>history := history st @ [Console WarnChannelNotReady]\<rparr>))
   \<and> (session_state_of (run_calls cs (new_peer pid)) = S_Idle \<longrightarrow>
        sendFile f fid (run_calls cs (new_peer pid))
          = Inr ((run_calls cs (new_peer pid))
                   \<lparr>history := history (run_calls cs (new_peer pid))
                                 @ [Console WarnChannelNotReady]\<rparr>))
   \<and> (dataChannel st2 = Some ch2 \<and> readyState ch2 = Open \<longrightarrow>
        sendFile f fid st2 = Inl SendQueueFull
        \<or> (\<exists>st3. sendFile f fid st2 = Inr st3
              \<and> history st3 = history st2 @ [Sent (FileInfoMsg (meta_of f fid))]
              \<and> length (transfers st3) = Suc (length (transfers st2))))"
proof (intro conjI impI)
  assume "dataChannel st = None \<or> (\<exists>ch. dataChannel st = Some ch \<and> readyState ch \<noteq> Open)"
  then show "sendFile f fid st = Inr (st\<lparr>history := history st @ [Console WarnChannelNotReady]\<rparr>)"
    by (auto simp: sendFile_def emit_def)
next
  assume "session_state_of (run_calls cs (new_peer pid)) = S_Idle"
  then have "dataChannel (run_calls cs (new_peer pid)) = None" by (rule idle_no_channel)
  then show "sendFile f fid (run_calls cs (new_peer pid))
          = Inr ((run_calls cs (new_peer pid))
                   \<lparr>history := history (run_calls cs (new_peer pid))
                                 @ [Console WarnChannelNotReady]\<rparr>)"
    by (simp add: sendFile_def emit_def)
next
  assume a: "dataChannel st2 = Some ch2 \<and> readyState ch2 = Open"
  have h: "history (sendNextChunk tid s) = history s"
    "length (transfers (sendNextChunk tid s)) = length (transfers s)" for tid s
    by (simp_all add: sendNextChunk_def Let_def split: option.splits)
  show "sendFile f fid st2 = Inl SendQueueFull
        \<or> (\<exists>st3. sendFile f fid st2 = Inr st3
              \<and> history st3 = history st2 @ [Sent (FileInfoMsg (meta_of f fid))]
              \<and> length (transfers st3) = Suc (length (transfers st2)))"
    using a
    by (auto simp: sendFile_def Let_def h emit_def meta_of_def dc_send_def
        split: sum.splits option.splits if_splits)
qed

lemma negotiating_value:
  "example_negotiating_sender =
     (new_peer ''p1'')
       \<lparr>remoteId := Some ''p2'',
        peerConnection := Some \<lparr>connectionState = CS_new, initiator = True,
                                localDescription = Some (Offer, Some ''v=0''),
                                remoteDescription = None, iceCandidates = []\<rparr>,
        dataChannel := Some (example_channel\<lparr>readyState := Connecting,
                               bufferedAmountLowThreshold := 1024 * 1024\<rparr>),
        signalTimers := [(100, \<lparr>kind = Offer, sdp = Some ''v=0'', candidate = None\<rparr>, 1)]\<rparr>"
  by (simp add: example_negotiating_sender_def apply_call_def setRemoteId_def
      initPeerConnection_def setupDataChannel_def sendSignal_def
      emit_def Let_def new_peer_def example_browser_def
      example_channel_def MAX_RETRIES_def RETRY_DELAY_def)

lemma idle_calls_value:
  "run_calls example_idle_calls (new_peer ''p2'') =
     (new_peer ''p2'')\<lparr>remoteId := Some ''p1'',
        ws := \<lparr>ws_readyState = WS_OPEN, ws_sent = []\<rparr>\<rparr>"
  by (simp add: example_idle_calls_def apply_call_def setRemoteId_def handleSignal_def
      pc_ondatachannel_def step_def new_peer_def example_candidate_def)

theorem sendFile_noop_exactly_without_open_channel_witness:
  "dataChannel example_negotiating_sender
      = Some (example_channel\<lparr>readyState := Connecting,
                               bufferedAmountLowThreshold := 1024 * 1024\<rparr>)
   \<and> readyState (example_channel\<lparr>readyState := Connecting,
                               bufferedAmountLowThreshold := 1024 * 1024\<rparr>) \<noteq> Open
   \<and> sendFile example_file ''1700000000000'' example_negotiating_sender
       = Inr (example_negotiating_sender\<lparr>history := [Console WarnChannelNotReady]\<rparr>)
   \<and> session_state_of (run_calls example_idle_calls (new_peer ''p2'')) = S_Idle
   \<and> map_sum id history
        (sendFile example_file ''1700000000000'' (run_calls example_idle_calls (new_peer ''p2'')))
       = Inr [Console WarnChannelNotReady]
   \<and> dataChannel example_sender = Some example_channel \<and> readyState example_channel = Open
   \<and> sendFile example_file ''1700000000000'' example_sender \<noteq> Inl SendQueueFull
   \<and> map_sum id history (sendFile example_file ''1700000000000'' example_sender)
       = Inr [Sent (FileInfoMsg \<lparr>fileId = ''1700000000000'', name = ''a.txt'', size_m = 3,
                                  type_m = ''text/plain'', totalChunks = 1\<rparr>)]
   \<and> map_sum id (\<lambda>s. length (transfers s)) (sendFile example_file ''1700000000000'' example_sender)
       = Inr 1"
proof -
  have a: "dataChannel example_negotiating_sender
      = Some (example_channel\<lparr>readyState := Connecting,
                               bufferedAmountLowThreshold := 1024 * 1024\<rparr>)"
    "readyState (example_channel\<lparr>readyState := Connecting,
                               bufferedAmountLowThreshold := 1024 * 1024\<rparr>) \<noteq> Open"
    "history example_negotiating_sender = []"
    unfolding negotiating_value by (simp_all add: new_peer_def)
  have b: "session_state_of (run_calls example_idle_calls (new_peer ''p2'')) = S_Idle"
    "history (run_calls example_idle_calls (new_peer ''p2'')) = []"
    unfolding idle_calls_value by (simp_all add: session_state_of_def new_peer_def)
  have c: "dataChannel example_sender = Some example_channel" "readyState example_channel = Open"
    "history example_sender = []" "transfers example_sender = []"
    by (simp_all add: example_sender_def example_channel_def new_peer_def)
  have d: "sendFile example_file ''1700000000000'' example_sender \<noteq> Inl SendQueueFull"
    by (simp add: sendFile_def dc_send_def example_sender_def example_channel_def new_peer_def
        Let_def)
  have m: "meta_of example_file ''1700000000000'' =
      \<lparr>fileId = ''1700000000000'', name = ''a.txt'', size_m = 3,
                                  type_m = ''text/plain'', totalChunks = 1\<rparr>"
    by (simp add: meta_of_def example_file_def file_size_def chunk_count_eq)
  from sendFile_noop_exactly_without_open_channel
         [where st = example_negotiating_sender and f = example_file
            and fid = "''1700000000000''" and cs = example_idle_calls and pid = "''p2''"
            and ?st2.0 = example_sender and ?ch2.0 = example_channel]
  show ?thesis
    using a b c d by (auto simp: m)
qed

text \<open>
  The claim as stated fails in both of its cases. With a transfer in flight on an open
  channel, a second \<open>sendFile\<close> queues its own metadata frame and starts its own read. And
  in a session that is not in the open state the call transmits as well when the channel
  is open: the caller's connection has reported \<open>disconnected\<close> (\<open>onDisconnect\<close> has fired,
  the session has failed) while the data channel still reads \<open>open\<close>; \<open>sendFile\<close> hands the
  metadata frame to the channel and starts reading the first chunk.
\<close>

theorem sendFile_open_channel_counterexample:
  "in_flight example_busy_sender
   \<and> map_sum id history (sendFile example_file ''1700000000001'' example_busy_sender)
       = Inr (history example_busy_sender
               @ [Sent (FileInfoMsg \<lparr>fileId = ''1700000000001'', name = ''a.txt'', size_m = 3,
                                      type_m = ''text/plain'', totalChunks = 1\<rparr>)])
   \<and> map_sum id tasks (sendFile example_file ''1700000000001'' example_busy_sender)
       = Inr [Reader 0 [104, 105, 33], Reader 1 [104, 105, 33]]
   \<and> session_state_of example_disconnected_sender = S_Failed
   \<and> map_sum id fired (sendFile example_file ''1700000000000'' example_disconnected_sender)
       = Inr [OnConnect, OnDisconnect]
   \<and> map_sum id sent_frames (sendFile example_file ''1700000000000'' example_disconnected_sender)
       = Inr [FileInfoMsg \<lparr>fileId = ''1700000000000'', name = ''a.txt'', size_m = 3,
                            type_m = ''text/plain'', totalChunks = 1\<rparr>]
   \<and> map_sum id tasks (sendFile example_file ''1700000000000'' example_disconnected_sender)
       = Inr [Reader 0 [104, 105, 33]]"
proof -
  have 1: "in_flight example_busy_sender
   \<and> map_sum id history (sendFile example_file ''1700000000001'' example_busy_sender)
       = Inr (history example_busy_sender
               @ [Sent (FileInfoMsg \<lparr>fileId = ''1700000000001'', name = ''a.txt'', size_m = 3,
                                      type_m = ''text/plain'', totalChunks = 1\<rparr>)])
   \<and> map_sum id tasks (sendFile example_file ''1700000000001'' example_busy_sender)
       = Inr [Reader 0 [104, 105, 33], Reader 1 [104, 105, 33]]"
    by (simp add: busy_value in_flight_def example_sender_def example_channel_def
        new_peer_def example_file_def sender_defs)
  have 2: "session_state_of example_disconnected_sender = S_Failed
   \<and> map_sum id fired (sendFile example_file ''1700000000000'' example_disconnected_sender)
       = Inr [OnConnect, OnDisconnect]
   \<and> map_sum id sent_frames (sendFile example_file ''1700000000000'' example_disconnected_sender)
       = Inr [FileInfoMsg \<lparr>fileId = ''1700000000000'', name = ''a.txt'', size_m = 3,
                            type_m = ''text/plain'', totalChunks = 1\<rparr>]
   \<and> map_sum id tasks (sendFile example_file ''1700000000000'' example_disconnected_sender)
       = Inr [Reader 0 [104, 105, 33]]"
    by (simp add: disconnected_value session_state_of_def sent_frames_def fired_def
        example_channel_def new_peer_def example_file_def sender_defs)
  from 1 2 show ?thesis by simp
qed

section \<open>Sender: a file of zero bytes\<close>

lemma quiet_step:
  assumes "tasks st = []" "\<not> in_flight st"
  shows "tasks (step e st) = [] \<and> transfers (step e st) = transfers st
         \<and> history (step e st) = history st"
proof (cases e)
  case (Drain n)
  have idle: "sendNextChunk tid s = s" if "transfers s = transfers st" for tid s
  proof (cases "length (transfers s) \<le> tid")
    case True
    then show ?thesis by (simp add: sendNextChunk_def)
  next
    case False
    then have "transfers st ! tid \<in> set (transfers st)" using that by simp
    with assms(2) have "t_totalChunks (transfers st ! tid) \<le> chunkIndex (transfers st ! tid)"
      by (auto simp: in_flight_def list_ex_iff)
    then show ?thesis using that by (simp add: sendNextChunk_def Let_def split: option.splits)
  qed
  show ?thesis using assms(1) Drain
    by (auto simp: step_def Let_def idle split: option.splits)
qed (use assms in \<open>auto simp: step_def split: option.splits\<close>)

lemma quiet_exec:
  "tasks st = [] \<Longrightarrow> \<not> in_flight st \<Longrightarrow>
     tasks (exec es st) = [] \<and> history (exec es st) = history st"
proof (induction es arbitrary: st)
  case Nil
  then show ?case by simp
next
  case (Cons e es)
  from quiet_step [OF Cons.prems, of e]
  have s: "tasks (step e st) = []" "transfers (step e st) = transfers st"
    "history (step e st) = history st" by simp_all
  from s(2) Cons.prems(2) have "\<not> in_flight (step e st)" by (simp add: in_flight_def)
  from Cons.IH [OF s(1) this] s(3) show ?case by simp
qed

lemma chunk_count_0 [simp]: "chunk_count 0 = 0"
  by (simp add: chunk_count_eq)

text \<open>
  Claim C10, as amended. \<open>sendFile\<close> is called with a zero-byte file on a sender whose data
  channel is present and open and which is otherwise idle (no read and no retry is pending,
  and no earlier transfer has chunks left to send), and the call returns normally (the
  channel accepts the metadata frame). Then the metadata frame goes out with
  \<open>totalChunks = 0\<close>, and whatever the event loop does afterwards, the history stays at that
  one frame: no chunk frame, no completion frame and no progress callback are ever added,
  and no work is pending. A receiver fed with the frames of this transfer fires
  \<open>onFileInfo\<close> and nothing else, so never \<open>onComplete\<close>.
\<close>

theorem empty_file_never_completes:
  assumes "dataChannel st = Some ch" "readyState ch = Open" "file_bytes f = []"
    and "tasks st = []" "\<not> in_flight st" "sendFile f fid st = Inr st1"
  shows "totalChunks (meta_of f fid) = 0
         \<and> history (exec es st1) = history st @ [Sent (FileInfoMsg (meta_of f fid))]
         \<and> tasks (exec es st1) = []
         \<and> fired (receive (drop (length (sent_frames st)) (sent_frames (exec es st1))) r)
             = fired r @ [OnFileInfo (meta_of f fid)]"
proof -
  have n: "chunk_count (file_size f) = 0" using assms(3) by (simp add: file_size_def)
  from assms(1,2,6) n
  have st1: "tasks st1 = tasks st" "transfers st1 = transfers st @
      [\<lparr>t_file = f, t_fileId = fid, t_totalChunks = 0, chunkIndex = 0, isReading = False\<rparr>]"
    "history st1 = history st @ [Sent (FileInfoMsg (meta_of f fid))]"
    by (auto simp: sendFile_def Let_def sendNextChunk_def emit_def meta_of_def
        split: sum.splits if_splits)
  from st1(2) assms(5) have "\<not> in_flight st1" by (simp add: in_flight_def)
  with st1(1) assms(4) have q: "tasks (exec es st1) = [] \<and> history (exec es st1) = history st1"
    by (intro quiet_exec) simp_all
  have "sent_frames (exec es st1) = sent_frames st @ [FileInfoMsg (meta_of f fid)]"
    using q st1(3) by (simp add: sent_frames_def)
  then have "fired (receive (drop (length (sent_frames st)) (sent_frames (exec es st1))) r)
             = fired r @ [OnFileInfo (meta_of f fid)]"
    by (simp add: dc_onmessage_def handleFileInfo_def emit_def fired_def)
  with q st1(3) n show ?thesis by (simp add: meta_of_def)
qed

theorem empty_file_never_completes_witness:
  "dataChannel example_sender = Some example_channel \<and> readyState example_channel = Open
   \<and> file_bytes example_empty_file = [] \<and> tasks example_sender = []
   \<and> \<not> in_flight example_sender
   \<and> history (exec [Drain 64, ReaderLoad 0, TimerFire 0]
        (example_sender
           \<lparr>dataChannel := Some (example_channel
               \<lparr>bufferedAmount := 64, bufferedAmountLowThreshold := 1024 * 1024,
                outbox := [FileInfoMsg (meta_of example_empty_file ''1700000000000'')],
                onbufferedamountlow := Some 0\<rparr>),
            transfers := [\<lparr>t_file = example_empty_file, t_fileId = ''1700000000000'',
                           t_totalChunks = 0, chunkIndex = 0, isReading = False\<rparr>],
            history := [Sent (FileInfoMsg (meta_of example_empty_file ''1700000000000''))]\<rparr>))
      = [Sent (FileInfoMsg \<lparr>fileId = ''1700000000000'', name = ''empty.bin'', size_m = 0,
             type_m = ''application/octet-stream'', totalChunks = 0\<rparr>)]"
proof -
  have a: "dataChannel example_sender = Some example_channel" "readyState example_channel = Open"
    "file_bytes example_empty_file = []" "tasks example_sender = []" "\<not> in_flight example_sender"
    by (simp_all add: example_sender_def example_channel_def example_empty_file_def new_peer_def
        in_flight_def)
  have s: "sendFile example_empty_file ''1700000000000'' example_sender =
      Inr (example_sender
           \<lparr>dataChannel := Some (example_channel
               \<lparr>bufferedAmount := 64, bufferedAmountLowThreshold := 1024 * 1024,
                outbox := [FileInfoMsg (meta_of example_empty_file ''1700000000000'')],
                onbufferedamountlow := Some 0\<rparr>),
            transfers := [\<lparr>t_file = example_empty_file, t_fileId = ''1700000000000'',
                           t_totalChunks = 0, chunkIndex = 0, isReading = False\<rparr>],
            history := [Sent (FileInfoMsg (meta_of example_empty_file ''1700000000000''))]\<rparr>)"
    by (simp add: example_sender_def example_channel_def example_empty_file_def new_peer_def
        meta_of_def sender_defs)
  from empty_file_never_completes [OF a s, of "[Drain 64, ReaderLoad 0, TimerFire 0]" "new_peer ''p2''"] a
  show ?thesis
    by (simp add: meta_of_def example_sender_def new_peer_def example_empty_file_def
        file_size_def)
qed

lemma busy_empty_value:
  "handleSend example_empty_file ''1700000000001'' example_busy_sender =
     example_sender
       \<lparr>dataChannel := Some (example_channel
           \<lparr>bufferedAmount := 128, bufferedAmountLowThreshold := 1024 * 1024,
            outbox := [FileInfoMsg (meta_of example_file ''1700000000000''),
                       FileInfoMsg (meta_of example_empty_file ''1700000000001'')],
            onbufferedamountlow := Some 1\<rparr>),
        transfers := [\<lparr>t_file = example_file, t_fileId = ''1700000000000'', t_totalChunks = 1,
                       chunkIndex = 0, isReading = True\<rparr>,
                      \<lparr>t_file = example_empty_file, t_fileId = ''1700000000001'',
                       t_totalChunks = 0, chunkIndex = 0, isReading = False\<rparr>],
        tasks := [Reader 0 [104, 105, 33]],
        history := [Sent (FileInfoMsg (meta_of example_file ''1700000000000'')),
                    Sent (FileInfoMsg (meta_of example_empty_file ''1700000000001''))]\<rparr>"
  unfolding busy_value
  by (simp add: handleSend_def example_sender_def example_channel_def new_peer_def meta_of_def
      sender_defs)
     (simp add: example_file_def example_empty_file_def)

text \<open>
  The claim as stated fails on a sender that is not idle. The zero-byte file is sent while
  the only chunk of \<open>a.txt\<close> is still being read: the receiver takes the metadata of
  \<open>empty.bin\<close> as the transfer in progress, counts the chunk of \<open>a.txt\<close> against
  \<open>totalChunks = 0\<close>, and on the completion frame of \<open>a.txt\<close> fires \<open>onComplete\<close> with the
  metadata of \<open>empty.bin\<close>.
\<close>

theorem empty_file_during_transfer_counterexample:
  "file_bytes example_empty_file = []
   \<and> in_flight example_busy_sender
   \<and> sent_frames (exec [ReaderLoad 0]
        (handleSend example_empty_file ''1700000000001'' example_busy_sender))
      = [FileInfoMsg \<lparr>fileId = ''1700000000000'', name = ''a.txt'', size_m = 3,
                       type_m = ''text/plain'', totalChunks = 1\<rparr>,
         FileInfoMsg \<lparr>fileId = ''1700000000001'', name = ''empty.bin'', size_m = 0,
                       type_m = ''application/octet-stream'', totalChunks = 0\<rparr>,
         Binary [104, 105, 33],
         FileCompleteMsg ''1700000000000'']
   \<and> fired (receive (sent_frames (exec [ReaderLoad 0]
        (handleSend example_empty_file ''1700000000001'' example_busy_sender))) (new_peer ''p2''))
      = [OnFileInfo \<lparr>fileId = ''1700000000000'', name = ''a.txt'', size_m = 3,
                      type_m = ''text/plain'', totalChunks = 1\<rparr>,
         OnFileInfo \<lparr>fileId = ''1700000000001'', name = ''empty.bin'', size_m = 0,
                      type_m = ''application/octet-stream'', totalChunks = 0\<rparr>,
         OnProgress PosInfinity,
         OnComplete (Blob [104, 105, 33] ''application/octet-stream'')
           \<lparr>fileId = ''1700000000001'', name = ''empty.bin'', size_m = 0,
            type_m = ''application/octet-stream'', totalChunks = 0\<rparr>]"
proof -
  have p: "progress (Suc 0) (Suc 0) = Num 100" "progress 1 1 = Num 100"
    by code_simp+
  have s: "sent_frames (exec [ReaderLoad 0]
        (handleSend example_empty_file ''1700000000001'' example_busy_sender))
      = [FileInfoMsg \<lparr>fileId = ''1700000000000'', name = ''a.txt'', size_m = 3,
                       type_m = ''text/plain'', totalChunks = 1\<rparr>,
         FileInfoMsg \<lparr>fileId = ''1700000000001'', name = ''empty.bin'', size_m = 0,
                       type_m = ''application/octet-stream'', totalChunks = 0\<rparr>,
         Binary [104, 105, 33],
         FileCompleteMsg ''1700000000000'']"
    unfolding busy_empty_value
    by (simp add: sent_frames_def example_sender_def example_channel_def new_peer_def
        sender_defs meta_of_def p)
       (simp add: example_file_def example_empty_file_def)
  have b: "in_flight example_busy_sender" "file_bytes example_empty_file = []"
    by (simp_all add: busy_value in_flight_def example_sender_def new_peer_def
        example_empty_file_def)
  show ?thesis
    unfolding s using b
    by (simp add: fired_def dc_onmessage_def handleFileInfo_def handleFileChunkBinary_def
        handleComplete_def emit_def new_peer_def progress_def)
qed

section \<open>Sender: the course of a transfer\<close>

lemma chunk_actions_Suc:
  "chunk_actions f (Suc i) = chunk_actions f i @
     [Sent (Binary (chunk_of f i)),
      Callback (OnProgress (progress (Suc i) (chunk_count (file_size f))))]"
  by (simp add: chunk_actions_def)

lemma sendFile_starts:
  assumes "dataChannel st = Some ch" "readyState ch = Open" "sendQueueLimit ch = None"
    and "tasks st = []"
  shows "sendFile f fid st =
     Inr (transfer_at st ch f fid 0
            (0 < chunk_count (file_size f)
               \<and> bufferedAmount ch + textBytes ch (FileInfoMsg (meta_of f fid)) \<le> 16 * 1024 * 1024)
            (bufferedAmount ch + textBytes ch (FileInfoMsg (meta_of f fid))))"
  using assms
  by (simp add: sendFile_def dc_send_def frame_size_def Let_def sendNextChunk_def emit_def
      transfer_at_def meta_of_def chunk_of_def chunk_actions_def)

lemma load_step:
  assumes "readyState ch = Open" "sendQueueLimit ch = None"
    and "i < chunk_count (file_size f)" "b \<le> 16 * 1024 * 1024"
  shows "step (ReaderLoad 0) (transfer_at st ch f fid i True b) =
     (if Suc i < chunk_count (file_size f)
      then transfer_at st ch f fid (Suc i)
             (b + length (chunk_of f i) \<le> 16 * 1024 * 1024) (b + length (chunk_of f i))
      else transfer_done st ch f fid
             (b + length (chunk_of f i) + textBytes ch (FileCompleteMsg fid)))"
proof (cases "Suc i < chunk_count (file_size f)")
  case True
  with assms show ?thesis
    by (simp add: step_def remove_nth_def reader_onload_def trySend_def dc_send_def frame_size_def
        Let_def sendNextChunk_def emit_def transfer_at_def chunk_actions_Suc chunk_of_def not_less)
next
  case False
  with assms(3) have n: "chunk_count (file_size f) = Suc i" by simp
  from assms(1,2,4) show ?thesis
    by (simp add: n step_def remove_nth_def reader_onload_def trySend_def dc_send_def frame_size_def
        Let_def emit_def transfer_at_def transfer_done_def chunk_actions_Suc chunk_of_def)
qed

lemma drain_step:
  assumes "i < chunk_count (file_size f)" "16 * 1024 * 1024 < b"
  shows "step (Drain b) (transfer_at st ch f fid i False b) = transfer_at st ch f fid i True 0"
  using assms
  by (simp add: step_def Let_def sendNextChunk_def transfer_at_def chunk_of_def)


lemma tasks_transfer_at [simp]:
  "tasks (transfer_at st ch f fid i r b) =
     (if r then [Reader (length (transfers st)) (chunk_of f i)] else [])"
  by (simp add: transfer_at_def)

lemma in_flight_transfer_at [simp]:
  "in_flight (transfer_at st ch f fid i r b) \<longleftrightarrow> in_flight st \<or> i < chunk_count (file_size f)"
  by (auto simp: transfer_at_def in_flight_def)

lemma channel_transfer_at:
  "\<exists>c. dataChannel (transfer_at st ch f fid i r b) = Some c \<and> bufferedAmount c = b"
  by (simp add: transfer_at_def)

lemma run_reading:
  "run_sender (Suc k) (transfer_at st ch f fid i True b) =
     run_sender k (step (ReaderLoad 0) (transfer_at st ch f fid i True b))"
  by simp

lemma run_paused:
  assumes "i < chunk_count (file_size f)"
  shows "run_sender (Suc k) (transfer_at st ch f fid i False b) =
     run_sender k (step (Drain b) (transfer_at st ch f fid i False b))"
proof -
  from channel_transfer_at [of st ch f fid i False b]
  obtain c where "dataChannel (transfer_at st ch f fid i False b) = Some c" "bufferedAmount c = b"
    by blast
  with assms show ?thesis by simp
qed

lemma run_done:
  assumes "\<not> in_flight st"
  shows "run_sender k (transfer_done st ch f fid b) = transfer_done st ch f fid b"
proof (cases k)
  case 0
  then show ?thesis by simp
next
  case (Suc k')
  have "tasks (transfer_done st ch f fid b) = []"
    "\<not> in_flight (transfer_done st ch f fid b)"
    using assms by (simp_all add: transfer_done_def in_flight_def)
  then show ?thesis using Suc by (simp split: option.splits)
qed

lemma run_from_reading:
  assumes "readyState ch = Open" "sendQueueLimit ch = None" "\<not> in_flight st"
  shows "i < chunk_count (file_size f) \<Longrightarrow> b \<le> 16 * 1024 * 1024 \<Longrightarrow>
         2 * (chunk_count (file_size f) - i) \<le> Suc fuel \<Longrightarrow>
         \<exists>b'. run_sender fuel (transfer_at st ch f fid i True b) = transfer_done st ch f fid b'"
proof (induction "chunk_count (file_size f) - i" arbitrary: i b fuel)
  case 0
  then show ?case by simp
next
  case (Suc d)
  let ?n = "chunk_count (file_size f)"
  from Suc.prems(1,3) obtain k where fuel: "fuel = Suc k" by (cases fuel) auto
  let ?b1 = "b + length (chunk_of f i)"
  have first: "run_sender fuel (transfer_at st ch f fid i True b) =
      run_sender k (if Suc i < ?n
        then transfer_at st ch f fid (Suc i) (?b1 \<le> 16 * 1024 * 1024) ?b1
        else transfer_done st ch f fid (?b1 + textBytes ch (FileCompleteMsg fid)))"
    unfolding fuel run_reading
    by (simp only: load_step [OF assms(1,2) Suc.prems(1,2)])
  show ?case
  proof (cases "Suc i < ?n")
    case False
    with first show ?thesis by (auto simp: run_done [OF assms(3)])
  next
    case True
    from Suc.hyps(2) have d: "d = ?n - Suc i" by simp
    show ?thesis
    proof (cases "?b1 \<le> 16 * 1024 * 1024")
      case low: True
      from Suc.prems(3) fuel have "2 * (?n - Suc i) \<le> Suc k" by simp
      from Suc.hyps(1) [OF d True low this] first True low show ?thesis by auto
    next
      case high: False
      from Suc.prems(3) fuel True obtain k' where k: "k = Suc k'" by (cases k) auto
      from high have hb: "16 * 1024 * 1024 < ?b1" by simp
      have zero: "(0::nat) \<le> 16 * 1024 * 1024" by simp
      from Suc.prems(3) fuel k have "2 * (?n - Suc i) \<le> Suc k'" by simp
      from Suc.hyps(1) [OF d True zero this]
      obtain b' where "run_sender k' (transfer_at st ch f fid (Suc i) True 0)
          = transfer_done st ch f fid b'" by blast
      then have "run_sender k (transfer_at st ch f fid (Suc i) False ?b1)
          = transfer_done st ch f fid b'"
        unfolding k run_paused [OF True] drain_step [OF True hb] .
      with first True high show ?thesis by auto
    qed
  qed
qed

lemma sender_completes:
  assumes "dataChannel st = Some ch" "readyState ch = Open" "sendQueueLimit ch = None"
    and "tasks st = []" "\<not> in_flight st"
    and "0 < chunk_count (file_size f)" "2 * chunk_count (file_size f) \<le> fuel"
  shows "\<exists>st1 b. sendFile f fid st = Inr st1
           \<and> run_sender fuel st1 = transfer_done st ch f fid b"
proof -
  let ?n = "chunk_count (file_size f)"
  let ?b0 = "bufferedAmount ch + textBytes ch (FileInfoMsg (meta_of f fid))"
  let ?st1 = "transfer_at st ch f fid 0 (?b0 \<le> 16 * 1024 * 1024) ?b0"
  have start: "sendFile f fid st = Inr ?st1"
    using sendFile_starts [OF assms(1-4), of f fid] assms(6) by simp
  have "\<exists>b. run_sender fuel ?st1 = transfer_done st ch f fid b"
  proof (cases "?b0 \<le> 16 * 1024 * 1024")
    case True
    from assms(7) have "2 * (?n - 0) \<le> Suc fuel" by simp
    from run_from_reading [OF assms(2,3,5) assms(6) True this] True show ?thesis by auto
  next
    case False
    then have hb: "16 * 1024 * 1024 < ?b0" by simp
    from assms(6,7) obtain k where fuel: "fuel = Suc k" by (cases fuel) auto
    have zero: "(0::nat) \<le> 16 * 1024 * 1024" by simp
    from assms(7) fuel have "2 * (?n - 0) \<le> Suc k" by simp
    from run_from_reading [OF assms(2,3,5) assms(6) zero this]
    obtain b' where "run_sender k (transfer_at st ch f fid 0 True 0)
        = transfer_done st ch f fid b'" by blast
    then have "run_sender fuel (transfer_at st ch f fid 0 False ?b0)
        = transfer_done st ch f fid b'"
      unfolding fuel run_paused [OF assms(6)] drain_step [OF assms(6) hb] .
    with False show ?thesis by auto
  qed
  with start show ?thesis by blast
qed

section \<open>Receiver: the frames of a whole transfer\<close>

lemma receive_append: "receive (xs @ ys) r = receive ys (receive xs r)"
  by (induction xs arbitrary: r) simp_all

lemma receive_chunks:
  "receive (map Binary cs) r =
     r\<lparr>incomingChunks := incomingChunks r @ cs,
       history := history r @
         map (\<lambda>k. Callback (OnProgress
                (progress (length (incomingChunks r) + Suc k) (expectedChunks r))))
           [0..<length cs]\<rparr>"
proof (induction cs arbitrary: r)
  case Nil
  then show ?case by simp
next
  case (Cons c cs)
  have "map (\<lambda>k. Callback (OnProgress
                (progress (length (incomingChunks r) + Suc k) (expectedChunks r))))
           [0..<Suc (length cs)]
        = Callback (OnProgress (progress (Suc (length (incomingChunks r))) (expectedChunks r)))
          # map (\<lambda>k. Callback (OnProgress
                (progress (Suc (length (incomingChunks r)) + Suc k) (expectedChunks r))))
           [0..<length cs]"
    by (simp only: map_upt_Suc) simp
  then show ?case
    by (simp add: Cons.IH dc_onmessage_def handleFileChunkBinary_def emit_def Let_def)
qed

lemma receive_transfer:
  "receive (FileInfoMsg m # map Binary cs @ [FileCompleteMsg fid]) r =
     r\<lparr>incomingChunks := [], expectedChunks := 0, receivingFile := None,
       history := history r @ Callback (OnFileInfo m)
         # map (\<lambda>k. Callback (OnProgress (progress (Suc k) (totalChunks m)))) [0..<length cs]
         @ [Callback (OnComplete (Blob (concat cs) (type_m m)) m)]\<rparr>"
  by (simp add: receive_append receive_chunks dc_onmessage_def handleFileInfo_def
      handleComplete_def emit_def)

lemma take_min_length: "take (min c (length ys)) ys = take c ys"
  by (cases "c \<le> length ys") (simp_all add: min_def)

lemma chunk_of_take: "chunk_of f k = take CHUNK_SIZE (drop (k * CHUNK_SIZE) (file_bytes f))"
proof -
  define c where "c = CHUNK_SIZE"
  define xs where "xs = file_bytes f"
  have e: "min (k * c + c) (length xs) - k * c = min c (length (drop (k * c) xs))"
    by simp
  have "chunk_of f k = take (min (k * c + c) (length xs) - k * c) (drop (k * c) xs)"
    by (simp only: chunk_of_def slice_file_def file_size_def c_def xs_def)
  also have "\<dots> = take c (drop (k * c) xs)"
    by (simp only: e take_min_length)
  finally show ?thesis by (simp only: c_def xs_def)
qed

lemma concat_takes:
  "concat (map (\<lambda>k. take c (drop (k * c) xs)) [0..<n]) = take (n * c) xs"
proof (induction n)
  case 0
  then show ?case by simp
next
  case (Suc n)
  have "take (n * c + c) xs = take (n * c) xs @ take c (drop (n * c) xs)"
    by (rule take_add)
  with Suc show ?case by (simp add: add.commute)
qed

lemma chunks_cover: "s \<le> chunk_count s * CHUNK_SIZE"
proof -
  have "(s + 16383) div 16384 * 16384 + (s + 16383) mod 16384 = s + 16383" by simp
  moreover have "(s + 16383) mod 16384 < 16384" by simp
  ultimately show ?thesis unfolding chunk_count_eq CHUNK_SIZE_def by linarith
qed

lemma concat_chunks:
  "concat (map (chunk_of f) [0..<chunk_count (file_size f)]) = file_bytes f"
proof -
  have "concat (map (chunk_of f) [0..<chunk_count (file_size f)])
      = take (chunk_count (file_size f) * CHUNK_SIZE) (file_bytes f)"
    using concat_takes [of CHUNK_SIZE "file_bytes f" "chunk_count (file_size f)"]
    by (simp add: chunk_of_take [abs_def])
  also have "\<dots> = file_bytes f"
    using chunks_cover [of "file_size f"] by (simp add: file_size_def)
  finally show ?thesis .
qed

lemma chunk_count_pos: "0 < chunk_count s \<longleftrightarrow> 0 < s"
  unfolding chunk_count_eq by (auto simp: div_greater_zero_iff)

section \<open>JavaScript numbers: rounding to a double is monotone\<close>

lemma pow2_powi: "pow2 e = power_int 2 e"
  by (simp add: pow2_def power_int_def power_inverse inverse_eq_divide power_one_over)

lemma pow2_pos [simp]: "0 < pow2 e"
  by (simp add: pow2_def)

lemma pow2_add: "pow2 (a + b) = pow2 a * pow2 b"
  by (simp add: pow2_powi power_int_add)

lemma pow2_nonneg [simp]: "0 \<le> pow2 e"
  by (simp add: pow2_def)

lemma pow2_nonzero [simp]: "pow2 e \<noteq> 0"
  by (simp add: pow2_def)

lemma pow2_diff: "pow2 a / pow2 b = pow2 (a - b)"
  using pow2_add [of "a - b" b] by simp

lemma pow2_nat: "pow2 (int n) = 2 ^ n"
  by (simp add: pow2_def)

lemma pow2_mono: "a \<le> b \<Longrightarrow> pow2 a \<le> pow2 b"
  by (simp add: pow2_powi power_int_increasing)

lemma pow2_less_imp: "pow2 a < pow2 b \<Longrightarrow> a < b"
  using pow2_mono [of b a] by (rule_tac ccontr) simp

lemma round_half_even_cases:
  "round_half_even x = \<lfloor>x\<rfloor> \<or> round_half_even x = \<lfloor>x\<rfloor> + 1"
  by (simp add: round_half_even_def Let_def)

lemma round_half_even_of_int [simp]: "round_half_even (of_int z) = z"
  by (simp add: round_half_even_def Let_def)

lemma round_half_even_mono:
  assumes "x \<le> y"
  shows "round_half_even x \<le> round_half_even y"
proof (cases "\<lfloor>x\<rfloor> = \<lfloor>y\<rfloor>")
  case False
  with assms have "\<lfloor>x\<rfloor> < \<lfloor>y\<rfloor>" using floor_mono [of x y] by simp
  moreover have "round_half_even x \<le> \<lfloor>x\<rfloor> + 1" using round_half_even_cases [of x] by auto
  moreover have "\<lfloor>y\<rfloor> \<le> round_half_even y" using round_half_even_cases [of y] by auto
  ultimately show ?thesis by simp
next
  case True
  with assms have "x - of_int \<lfloor>x\<rfloor> \<le> y - of_int \<lfloor>y\<rfloor>" by simp
  with True show ?thesis
    by (auto simp: round_half_even_def Let_def)
qed

lemma round_half_even_ge: "of_int z \<le> x \<Longrightarrow> z \<le> round_half_even x"
  using round_half_even_mono [of "of_int z" x] by simp

lemma round_half_even_le: "x \<le> of_int z \<Longrightarrow> round_half_even x \<le> z"
  using round_half_even_mono [of x "of_int z"] by simp

lemma bitlen_pow2:
  assumes "0 < a"
  shows "pow2 (bitlen a - 1) \<le> of_int a" "of_int a < pow2 (bitlen a)"
proof -
  from bitlen_bounds [OF assms]
  have b: "2 ^ nat (bitlen a - 1) \<le> a" "a < 2 ^ nat (bitlen a)" by simp_all
  have pos: "1 \<le> bitlen a" using assms by (simp add: bitlen_alt_def)
  from b(1) have "(of_int (2 ^ nat (bitlen a - 1)) :: rat) \<le> of_int a"
    by (simp only: of_int_le_iff)
  then show "pow2 (bitlen a - 1) \<le> of_int a" using pos by (simp add: pow2_def)
  from b(2) have "(of_int a :: rat) < of_int (2 ^ nat (bitlen a))"
    by (simp only: of_int_less_iff)
  then show "of_int a < pow2 (bitlen a)" using pos by (simp add: pow2_def)
qed

lemma ilog2_bounds:
  assumes "0 < x"
  shows "pow2 (ilog2 x) \<le> x" "x < pow2 (ilog2 x + 1)"
proof -
  obtain a b where q: "quotient_of x = (a, b)" by (cases "quotient_of x") auto
  then have b: "0 < b" by (rule quotient_of_denom_pos)
  from q have x: "x = of_int a / of_int b" by (rule quotient_of_div)
  with assms b have a: "0 < a" by (simp add: zero_less_divide_iff)
  define k where "k = bitlen a - bitlen b"
  note ba = bitlen_pow2 [OF a] and bb = bitlen_pow2 [OF b]
  have bpos: "(0::rat) < of_int b" using b by simp
  have "x < pow2 (bitlen a) / pow2 (bitlen b - 1)"
    unfolding x by (rule frac_less) (use a ba(2) bb(1) in simp_all)
  also have "\<dots> = pow2 (k + 1)"
    by (simp add: pow2_diff k_def algebra_simps)
  finally have up: "x < pow2 (k + 1)" .
  have "pow2 (bitlen a - 1) / pow2 (bitlen b) < x"
    unfolding x by (rule frac_less2) (use bpos ba(1) bb(2) in simp_all)
  moreover have "pow2 (bitlen a - 1) / pow2 (bitlen b) = pow2 (k - 1)"
    by (simp add: pow2_diff k_def algebra_simps)
  ultimately have lo: "pow2 (k - 1) < x" by simp
  have il: "ilog2 x = (if pow2 k \<le> x then k else k - 1)"
    by (simp add: ilog2_def q k_def Let_def)
  show "pow2 (ilog2 x) \<le> x" using lo by (simp add: il)
  show "x < pow2 (ilog2 x + 1)" using up by (simp add: il)
qed


lemma ilog2_mono:
  assumes "0 < x" "x \<le> y"
  shows "ilog2 x \<le> ilog2 y"
proof -
  from assms have y: "0 < y" by simp
  from ilog2_bounds(1) [OF assms(1)] assms(2) ilog2_bounds(2) [OF y]
  have "pow2 (ilog2 x) < pow2 (ilog2 y + 1)" by simp
  then have "ilog2 x < ilog2 y + 1" by (rule pow2_less_imp)
  then show ?thesis by simp
qed

lemma round_double_nonneg: "0 \<le> round_double x"
proof (cases "x \<le> 0")
  case True
  then show ?thesis by (simp add: round_double_def)
next
  case False
  then have "0 \<le> x / pow2 (ilog2 x - 52)" by (simp add: zero_le_divide_iff)
  then have "0 \<le> round_half_even (x / pow2 (ilog2 x - 52))"
    using round_half_even_ge [of 0] by simp
  with False show ?thesis by (simp add: round_double_def Let_def)
qed

lemma round_double_mono:
  assumes "x \<le> y"
  shows "round_double x \<le> round_double y"
proof (cases "x \<le> 0")
  case True
  then show ?thesis using round_double_nonneg [of y] by (simp add: round_double_def)
next
  case False
  then have x: "0 < x" and y: "0 < y" using assms by simp_all
  define ex where "ex = ilog2 x - 52"
  define ey where "ey = ilog2 y - 52"
  have rx: "round_double x = of_int (round_half_even (x / pow2 ex)) * pow2 ex"
    using x by (simp add: round_double_def ex_def Let_def)
  have ry: "round_double y = of_int (round_half_even (y / pow2 ey)) * pow2 ey"
    using y by (simp add: round_double_def ey_def Let_def)
  have le: "ex \<le> ey" using ilog2_mono [OF x assms] by (simp add: ex_def ey_def)
  show ?thesis
  proof (cases "ex = ey")
    case True
    have "x / pow2 ey \<le> y / pow2 ey" using assms by (simp add: divide_right_mono)
    then have "round_half_even (x / pow2 ey) \<le> round_half_even (y / pow2 ey)"
      by (rule round_half_even_mono)
    then show ?thesis by (simp add: rx ry True)
  next
    case False
    with le have lt: "ex + 1 \<le> ey" by simp
    have e1: "ilog2 x + 1 = 53 + ex" by (simp add: ex_def)
    have e2: "ilog2 y = 52 + ey" by (simp add: ey_def)
    have "x < pow2 (53 + ex)" using ilog2_bounds(2) [OF x] unfolding e1 .
    then have "x < pow2 53 * pow2 ex" by (simp only: pow2_add)
    then have "x / pow2 ex < pow2 53"
      by (simp add: pos_divide_less_eq)
    then have "x / pow2 ex \<le> of_int (2 ^ 53)" by (simp add: pow2_def)
    then have "round_half_even (x / pow2 ex) \<le> 2 ^ 53" by (rule round_half_even_le)
    then have "(of_int (round_half_even (x / pow2 ex)) :: rat) \<le> of_int (2 ^ 53)"
      by (simp only: of_int_le_iff)
    then have "of_int (round_half_even (x / pow2 ex)) \<le> pow2 53" by (simp add: pow2_def)
    then have "round_double x \<le> pow2 53 * pow2 ex"
      unfolding rx by (rule mult_right_mono) simp
    also have "\<dots> = pow2 (53 + ex)" by (simp only: pow2_add)
    also have "\<dots> \<le> pow2 (52 + ey)" using lt by (intro pow2_mono) simp
    also have "\<dots> = pow2 52 * pow2 ey" by (simp only: pow2_add)
    also have "\<dots> \<le> round_double y"
    proof -
      have "pow2 (52 + ey) \<le> y" using ilog2_bounds(1) [OF y] unfolding e2 .
      then have "pow2 52 * pow2 ey \<le> y" by (simp only: pow2_add)
      then have "pow2 52 \<le> y / pow2 ey"
        by (simp add: pos_le_divide_eq)
      then have "of_int (2 ^ 52) \<le> y / pow2 ey" by (simp add: pow2_def)
      then have "2 ^ 52 \<le> round_half_even (y / pow2 ey)" by (rule round_half_even_ge)
      then have "(of_int (2 ^ 52) :: rat) \<le> of_int (round_half_even (y / pow2 ey))"
        by (simp only: of_int_le_iff)
      then have "pow2 52 \<le> of_int (round_half_even (y / pow2 ey))" by (simp add: pow2_def)
      then show ?thesis unfolding ry by (rule mult_right_mono) simp
    qed
    finally show ?thesis .
  qed
qed

lemma round_double_1: "round_double 1 = 1"
  by code_simp

lemma round_double_100: "round_double 100 = 100"
  by code_simp

lemma round_double_top: "round_double (9007199254740991 / 9007199254740992 * 100) < 100"
  by code_simp

lemma round_double_below_1:
  "round_double (9007199254740991 / 9007199254740992) = 9007199254740991 / 9007199254740992"
  by code_simp

lemma progress_full: "0 < n \<Longrightarrow> progress n n = Num 100"
  by (simp add: progress_def round_double_1 round_double_100)

lemma progress_mono:
  assumes "0 < n" "i \<le> j"
  shows "js_le (progress i n) (progress j n)"
proof -
  have "(of_nat i :: rat) / of_nat n \<le> of_nat j / of_nat n"
    using assms by (simp add: divide_right_mono)
  then have "round_double (of_nat i / of_nat n) * 100 \<le> round_double (of_nat j / of_nat n) * 100"
    using round_double_mono by simp
  then have "round_double (round_double (of_nat i / of_nat n) * 100)
      \<le> round_double (round_double (of_nat j / of_nat n) * 100)"
    by (rule round_double_mono)
  then show ?thesis using assms(1) by (simp add: progress_def js_le_def floor_mono)
qed

lemma progress_below:
  assumes "i < n" "n \<le> 2 ^ 53"
  shows "\<exists>a. progress i n = Num a \<and> a < 100"
proof -
  from assms have n: "0 < n" by simp
  have "(of_nat i :: rat) / of_nat n \<le> of_nat (n - 1) / of_nat n"
    using assms by (intro divide_right_mono) simp_all
  also have "\<dots> = 1 - 1 / of_nat n"
    using n by (simp add: of_nat_diff field_simps)
  also have "\<dots> \<le> 1 - 1 / 2 ^ 53"
  proof -
    have "(of_nat n :: rat) \<le> of_nat (2 ^ 53)" using assms(2) by (simp only: of_nat_le_iff)
    then have "(1 :: rat) / 2 ^ 53 \<le> 1 / of_nat n"
      using n by (simp add: field_simps)
    then show ?thesis by simp
  qed
  also have "\<dots> = 9007199254740991 / 9007199254740992" by simp
  finally have "round_double (of_nat i / of_nat n) \<le> 9007199254740991 / 9007199254740992"
    using round_double_mono round_double_below_1 by metis
  then have "round_double (of_nat i / of_nat n) * 100 \<le> 9007199254740991 / 9007199254740992 * 100"
    by simp
  then have "round_double (round_double (of_nat i / of_nat n) * 100)
      \<le> round_double (9007199254740991 / 9007199254740992 * 100)"
    by (rule round_double_mono)
  with round_double_top have "round_double (round_double (of_nat i / of_nat n) * 100) < 100"
    by simp
  then have "\<lfloor>round_double (round_double (of_nat i / of_nat n) * 100)\<rfloor> < 100"
    by (simp add: floor_less_iff)
  with n show ?thesis by (simp add: progress_def)
qed

lemma progress_3: "progress 1 3 = Num 33" "progress 2 3 = Num 66" "progress 3 3 = Num 100"
  by code_simp+

section \<open>Sending then receiving a non-empty file\<close>

lemma sent_chunk_actions:
  "concat (map (\<lambda>a. case a of Sent f \<Rightarrow> [f] | _ \<Rightarrow> []) (chunk_actions f i))
     = map (\<lambda>k. Binary (chunk_of f k)) [0..<i]"
  by (induction i) (simp_all add: chunk_actions_Suc, simp add: chunk_actions_def)

lemma fired_chunk_actions:
  "concat (map (\<lambda>a. case a of Callback e \<Rightarrow> [e] | _ \<Rightarrow> []) (chunk_actions f i))
     = map (\<lambda>k. OnProgress (progress (Suc k) (chunk_count (file_size f)))) [0..<i]"
  by (induction i) (simp_all add: chunk_actions_Suc, simp add: chunk_actions_def)

lemma progress_values_map [simp]:
  "progress_values (map (\<lambda>k. OnProgress (g k)) xs) = map g xs"
  by (induction xs) (simp_all add: progress_values_def)

lemma progress_values_append [simp]:
  "progress_values (xs @ ys) = progress_values xs @ progress_values ys"
  by (simp add: progress_values_def)

lemma fired_callbacks [simp]:
  "concat (map (\<lambda>a. case a of Callback e \<Rightarrow> [e] | _ \<Rightarrow> []) (map (\<lambda>k. Callback (g k)) xs))
     = map g xs"
  by (induction xs) simp_all

lemma transfer_roundtrip:
  assumes "dataChannel st = Some ch" "readyState ch = Open" "sendQueueLimit ch = None"
    and "tasks st = []" "\<not> in_flight st"
    and "file_bytes f \<noteq> []" "2 * chunk_count (file_size f) \<le> fuel"
  shows "\<exists>st1. sendFile f fid st = Inr st1
     \<and> history (run_sender fuel st1) =
         history st @ Sent (FileInfoMsg (meta_of f fid))
           # chunk_actions f (chunk_count (file_size f)) @ [Sent (FileCompleteMsg fid)]
     \<and> sent_frames (run_sender fuel st1) =
         sent_frames st @ FileInfoMsg (meta_of f fid)
           # map (\<lambda>k. Binary (chunk_of f k)) [0..<chunk_count (file_size f)]
           @ [FileCompleteMsg fid]
     \<and> fired (run_sender fuel st1) =
         fired st @ map OnProgress (expected_progress (chunk_count (file_size f)))
     \<and> tasks (run_sender fuel st1) = [] \<and> \<not> in_flight (run_sender fuel st1)
     \<and> fired (receive (drop (length (sent_frames st)) (sent_frames (run_sender fuel st1))) r) =
         fired r @ OnFileInfo (meta_of f fid)
           # map OnProgress (expected_progress (chunk_count (file_size f)))
           @ [OnComplete (Blob (file_bytes f) (file_type f)) (meta_of f fid)]"
proof -
  let ?n = "chunk_count (file_size f)"
  from assms(6) have n: "0 < ?n" by (simp add: chunk_count_pos file_size_def)
  from sender_completes [OF assms(1-5) n assms(7), of fid]
  obtain st1 b where s: "sendFile f fid st = Inr st1"
    and run: "run_sender fuel st1 = transfer_done st ch f fid b" by blast
  have h: "history (run_sender fuel st1) =
         history st @ Sent (FileInfoMsg (meta_of f fid))
           # chunk_actions f ?n @ [Sent (FileCompleteMsg fid)]"
    by (simp add: run transfer_done_def)
  have sf: "sent_frames (run_sender fuel st1) =
         sent_frames st @ FileInfoMsg (meta_of f fid)
           # map (\<lambda>k. Binary (chunk_of f k)) [0..<?n] @ [FileCompleteMsg fid]"
    by (simp add: sent_frames_def h sent_chunk_actions)
  have fi: "fired (run_sender fuel st1) = fired st @ map OnProgress (expected_progress ?n)"
    by (simp add: fired_def h fired_chunk_actions expected_progress_def)
  have t: "tasks (run_sender fuel st1) = []" "\<not> in_flight (run_sender fuel st1)"
    using assms(5) by (simp_all add: run transfer_done_def in_flight_def)
  have "receive (drop (length (sent_frames st)) (sent_frames (run_sender fuel st1))) r =
      receive (FileInfoMsg (meta_of f fid) # map Binary (map (chunk_of f) [0..<?n])
                 @ [FileCompleteMsg fid]) r"
    by (simp add: sf comp_def)
  then have "fired (receive (drop (length (sent_frames st)) (sent_frames (run_sender fuel st1))) r) =
         fired r @ OnFileInfo (meta_of f fid)
           # map OnProgress (expected_progress ?n)
           @ [OnComplete (Blob (file_bytes f) (file_type f)) (meta_of f fid)]"
    by (simp only: receive_transfer)
       (simp add: fired_def concat_chunks meta_of_def expected_progress_def comp_def)
  with s h sf fi t show ?thesis by blast
qed

section \<open>Round trip: the file of zero bytes\<close>

lemma example_sender_idle:
  "dataChannel example_sender = Some example_channel" "readyState example_channel = Open"
  "sendQueueLimit example_channel = None" "tasks example_sender = []"
  "\<not> in_flight example_sender"
  by (simp_all add: example_sender_def example_channel_def new_peer_def in_flight_def)

lemma example_sender_history [simp]:
  "history example_sender = []" "sent_frames example_sender = []" "fired example_sender = []"
  "history (new_peer p) = []" "fired (new_peer p) = []"
  by (simp_all add: example_sender_def new_peer_def sent_frames_def fired_def)

lemma example_file_chunks [simp]:
  "file_size example_file = 3" "chunk_count 3 = 1" "file_bytes example_file \<noteq> []"
  by (simp_all add: example_file_def file_size_def chunk_count_eq)

lemma run_sender_idle: "tasks st = [] \<Longrightarrow> \<not> in_flight st \<Longrightarrow> run_sender k st = st"
  by (cases k) (simp_all split: option.splits)

lemma empty_send_value:
  "sendFile example_empty_file ''1700000000000'' example_sender =
      Inr (example_sender
           \<lparr>dataChannel := Some (example_channel
               \<lparr>bufferedAmount := 64, bufferedAmountLowThreshold := 1024 * 1024,
                outbox := [FileInfoMsg (meta_of example_empty_file ''1700000000000'')],
                onbufferedamountlow := Some 0\<rparr>),
            transfers := [\<lparr>t_file = example_empty_file, t_fileId = ''1700000000000'',
                           t_totalChunks = 0, chunkIndex = 0, isReading = False\<rparr>],
            history := [Sent (FileInfoMsg (meta_of example_empty_file ''1700000000000''))]\<rparr>)"
  by (simp add: example_sender_def example_channel_def example_empty_file_def new_peer_def
      meta_of_def sender_defs)

text \<open>
  Claim C1 asks that every file, sent and then received, is reconstructed byte for byte.
  For every non-empty file this is \<open>transfer_roundtrip\<close> above, with
  \<open>chunk_count\<close> the ceiling of the size over 16384 (\<open>ceil_div_nat\<close>). For the file of zero
  bytes the code does not do it: the sender, run to the end on an open channel, has handed
  over the metadata frame only, and the receiver fed with its frames has fired
  \<open>onFileInfo\<close> and never \<open>onComplete\<close>.
\<close>

theorem empty_file_roundtrip_fails:
  "map_sum id (\<lambda>st1. fired (receive (sent_frames (run_sender 10 st1)) (new_peer ''p2'')))
       (sendFile example_empty_file ''1700000000000'' example_sender)
     = Inr [OnFileInfo \<lparr>fileId = ''1700000000000'', name = ''empty.bin'', size_m = 0,
              type_m = ''application/octet-stream'', totalChunks = 0\<rparr>]"
proof -
  let ?st1 = "example_sender
           \<lparr>dataChannel := Some (example_channel
               \<lparr>bufferedAmount := 64, bufferedAmountLowThreshold := 1024 * 1024,
                outbox := [FileInfoMsg (meta_of example_empty_file ''1700000000000'')],
                onbufferedamountlow := Some 0\<rparr>),
            transfers := [\<lparr>t_file = example_empty_file, t_fileId = ''1700000000000'',
                           t_totalChunks = 0, chunkIndex = 0, isReading = False\<rparr>],
            history := [Sent (FileInfoMsg (meta_of example_empty_file ''1700000000000''))]\<rparr>"
  have "tasks ?st1 = []" "\<not> in_flight ?st1"
    by (simp_all add: example_sender_def new_peer_def in_flight_def)
  then have r: "run_sender 10 ?st1 = ?st1" by (rule run_sender_idle)
  have "fired (receive (sent_frames ?st1) (new_peer ''p2''))
      = [OnFileInfo \<lparr>fileId = ''1700000000000'', name = ''empty.bin'', size_m = 0,
              type_m = ''application/octet-stream'', totalChunks = 0\<rparr>]"
    by (simp add: sent_frames_def fired_def dc_onmessage_def handleFileInfo_def emit_def
        meta_of_def example_empty_file_def file_size_def new_peer_def)
  then show ?thesis
    by (simp only: empty_send_value map_sum.simps r)
qed

lemma bounded_after_send:
  "handleSend example_two_chunk_file ''1700000000000'' example_bounded_sender =
     (new_peer ''p1'')
       \<lparr>dataChannel := Some (example_channel
           \<lparr>bufferedAmount := 16777116, sendQueueLimit := Some (16 * 1024 * 1024),
            bufferedAmountLowThreshold := 1024 * 1024,
            outbox := [FileInfoMsg (meta_of example_two_chunk_file ''1700000000000'')],
            onbufferedamountlow := Some 0\<rparr>),
        transfers := [\<lparr>t_file = example_two_chunk_file, t_fileId = ''1700000000000'',
                       t_totalChunks = 2, chunkIndex = 0, isReading = True\<rparr>],
        tasks := [Reader 0 (replicate 16384 1)],
        history := [Sent (FileInfoMsg (meta_of example_two_chunk_file ''1700000000000''))]\<rparr>"
  by (simp add: handleSend_def example_bounded_sender_def
      example_channel_def new_peer_def meta_of_def sender_defs)
     (simp add: example_two_chunk_file_def)

text \<open>
  The round trip can also fail for a non-empty file when the channel's send queue is
  bounded. \<open>reader.onload\<close> clears \<open>isReading\<close> before the chunk is handed over; when \<open>send\<close>
  throws \<open>send queue is full\<close>, the chunk waits for its 50 ms retry with \<open>chunkIndex\<close> not
  yet advanced. If the channel drains to the notify threshold in between,
  \<open>bufferedamountlow\<close> calls \<open>sendNextChunk\<close>, which reads the same chunk a second time. Both
  copies are sent, each advances \<open>chunkIndex\<close>, and the second chunk of the file is never
  read: the receiver gets the first chunk twice.
\<close>

lemma retry_race_duplicates_chunk:
  "sent_frames (exec [ReaderLoad 0, Drain 16000000, TimerFire 0, ReaderLoad 0]
       (handleSend example_two_chunk_file ''1700000000000'' example_bounded_sender))
     = [FileInfoMsg (meta_of example_two_chunk_file ''1700000000000''),
        Binary (replicate 16384 1), Binary (replicate 16384 1),
        FileCompleteMsg ''1700000000000'']"
  unfolding bounded_after_send
  by (simp add: sent_frames_def example_channel_def new_peer_def sender_defs)
     (simp add: example_two_chunk_file_def)

section \<open>The end-to-end example: 40000 bytes\<close>

lemma expected_progress_3: "expected_progress 3 = [Num 33, Num 66, Num 100]"
  by code_simp


lemma chunk_length: "length (chunk_of f k) = min CHUNK_SIZE (file_size f - k * CHUNK_SIZE)"
  by (simp add: chunk_of_take file_size_def)

text \<open>
  Claim C2, as amended. A 40000-byte file named \<open>report.bin\<close>, sent from an idle sender
  over an open channel that accepts every frame and run to the end: the sender computes
  \<open>totalChunks = 3\<close> (chunks of 16384, 16384 and 7232 bytes); the receiver fires
  \<open>onFileInfo\<close> with name \<open>report.bin\<close>, size 40000 and \<open>totalChunks = 3\<close>, then the progress
  values 33, 66, 100, then \<open>onComplete\<close> with the 40000 bytes of the file.
\<close>

theorem report_bin_transfer:
  assumes "dataChannel st = Some ch" "readyState ch = Open" "sendQueueLimit ch = None"
    and "tasks st = []" "\<not> in_flight st"
    and "file_name f = ''report.bin''" "length (file_bytes f) = 40000" "6 \<le> fuel"
  shows "\<exists>st1. sendFile f fid st = Inr st1
     \<and> chunk_count (file_size f) = 3
     \<and> map (\<lambda>k. length (chunk_of f k)) [0, 1, 2] = [16384, 16384, 7232]
     \<and> fired (receive (drop (length (sent_frames st)) (sent_frames (run_sender fuel st1))) r) =
         fired r @
           [OnFileInfo \<lparr>fileId = fid, name = ''report.bin'', size_m = 40000,
                        type_m = file_type f, totalChunks = 3\<rparr>,
            OnProgress (Num 33), OnProgress (Num 66), OnProgress (Num 100),
            OnComplete (Blob (file_bytes f) (file_type f))
              \<lparr>fileId = fid, name = ''report.bin'', size_m = 40000,
               type_m = file_type f, totalChunks = 3\<rparr>]
     \<and> length (file_bytes f) = 40000"
proof -
  have n: "chunk_count (file_size f) = 3"
    using assms(7) by (simp add: file_size_def chunk_count_eq)
  from assms(7) have ne: "file_bytes f \<noteq> []" by auto
  from assms(8) n have fuel: "2 * chunk_count (file_size f) \<le> fuel" by simp
  from transfer_roundtrip [OF assms(1-5) ne fuel, of fid r]
  obtain st1 where s: "sendFile f fid st = Inr st1"
    and ev: "fired (receive (drop (length (sent_frames st)) (sent_frames (run_sender fuel st1))) r) =
         fired r @ OnFileInfo (meta_of f fid)
           # map OnProgress (expected_progress (chunk_count (file_size f)))
           @ [OnComplete (Blob (file_bytes f) (file_type f)) (meta_of f fid)]"
    by blast
  have m: "meta_of f fid = \<lparr>fileId = fid, name = ''report.bin'', size_m = 40000,
                        type_m = file_type f, totalChunks = 3\<rparr>"
    using assms(6,7) n by (simp add: meta_of_def file_size_def)
  have l: "map (\<lambda>k. length (chunk_of f k)) [0, 1, 2] = [16384, 16384, 7232]"
    using assms(7) by (simp add: chunk_length file_size_def CHUNK_SIZE_def)
  from s n l ev assms(7) show ?thesis
    by (simp add: m expected_progress_3)
qed

theorem report_bin_transfer_witness:
  "dataChannel example_sender = Some example_channel \<and> readyState example_channel = Open
   \<and> sendQueueLimit example_channel = None \<and> tasks example_sender = []
   \<and> \<not> in_flight example_sender
   \<and> file_name example_report = ''report.bin'' \<and> length (file_bytes example_report) = 40000
   \<and> (\<exists>st1. sendFile example_report ''1700000000000'' example_sender = Inr st1
        \<and> progress_values (fired (receive (sent_frames (run_sender 6 st1)) (new_peer ''p2'')))
            = [Num 33, Num 66, Num 100])"
proof -
  have f: "file_name example_report = ''report.bin''" "length (file_bytes example_report) = 40000"
    by (simp_all add: example_report_def)
  have six: "(6::nat) \<le> 6" by simp
  from report_bin_transfer [OF example_sender_idle f six, of "''1700000000000''" "new_peer ''p2''"]
  obtain st1 where "sendFile example_report ''1700000000000'' example_sender = Inr st1"
    and "fired (receive (drop (length (sent_frames example_sender)) (sent_frames (run_sender 6 st1)))
            (new_peer ''p2'')) =
         fired (new_peer ''p2'') @
           [OnFileInfo \<lparr>fileId = ''1700000000000'', name = ''report.bin'', size_m = 40000,
                        type_m = file_type example_report, totalChunks = 3\<rparr>,
            OnProgress (Num 33), OnProgress (Num 66), OnProgress (Num 100),
            OnComplete (Blob (file_bytes example_report) (file_type example_report))
              \<lparr>fileId = ''1700000000000'', name = ''report.bin'', size_m = 40000,
               type_m = file_type example_report, totalChunks = 3\<rparr>]"
    by blast
  then have "sendFile example_report ''1700000000000'' example_sender = Inr st1
        \<and> progress_values (fired (receive (sent_frames (run_sender 6 st1)) (new_peer ''p2'')))
            = [Num 33, Num 66, Num 100]"
    by (simp add: progress_values_def)
  with example_sender_idle f show ?thesis by blast
qed

text \<open>The progress sequence of the claim as stated, 34, 67, 100, is not what the receiver
  reports for this file.\<close>

theorem report_bin_progress_counterexample:
  "map_sum id
     (\<lambda>st1. progress_values (fired (receive (sent_frames (run_sender 6 st1)) (new_peer ''p2''))))
     (sendFile example_report ''1700000000000'' example_sender)
   \<noteq> Inr [Num 34, Num 67, Num 100]"
proof -
  have ne: "file_bytes example_report \<noteq> []" by (simp add: example_report_def)
  have n: "chunk_count (file_size example_report) = 3"
    by (simp add: example_report_def file_size_def chunk_count_eq)
  then have fuel: "2 * chunk_count (file_size example_report) \<le> 6" by simp
  from transfer_roundtrip [OF example_sender_idle ne fuel, of "''1700000000000''" "new_peer ''p2''"]
  obtain st1 where s: "sendFile example_report ''1700000000000'' example_sender = Inr st1"
    and ev: "fired (receive (drop (length (sent_frames example_sender))
                (sent_frames (run_sender 6 st1))) (new_peer ''p2'')) =
         fired (new_peer ''p2'') @ OnFileInfo (meta_of example_report ''1700000000000'')
           # map OnProgress (expected_progress (chunk_count (file_size example_report)))
           @ [OnComplete (Blob (file_bytes example_report) (file_type example_report))
                (meta_of example_report ''1700000000000'')]"
    by blast
  from ev have "progress_values (fired (receive (sent_frames (run_sender 6 st1)) (new_peer ''p2'')))
      = [Num 33, Num 66, Num 100]"
    by (simp add: n expected_progress_3 progress_values_def)
  then show ?thesis by (simp add: s)
qed

section \<open>Progress: monotone, and 100 exactly once\<close>

lemma chunk_count_le: "chunk_count s \<le> s"
proof (cases "s = 0")
  case True
  then show ?thesis by simp
next
  case False
  then have "s + 16383 \<le> 16384 * s" by simp
  then have "(s + 16383) div 16384 \<le> (16384 * s) div 16384" by (rule div_le_mono)
  then show ?thesis by (simp add: chunk_count_eq)
qed

lemma expected_progress_sorted: "sorted_wrt js_le (expected_progress n)"
  unfolding expected_progress_def sorted_wrt_iff_nth_less
  by (auto intro!: progress_mono)

lemma expected_progress_Suc:
  "expected_progress (Suc m) = map (\<lambda>k. progress (Suc k) (Suc m)) [0..<m] @ [Num 100]"
  by (simp add: expected_progress_def progress_full)

lemma expected_progress_once:
  assumes "0 < n" "n \<le> 2 ^ 53"
  shows "count_list (expected_progress n) (Num 100) = 1" "last (expected_progress n) = Num 100"
proof -
  from assms(1) obtain m where n: "n = Suc m" by (cases n) auto
  have "Num 100 \<notin> set (map (\<lambda>k. progress (Suc k) (Suc m)) [0..<m])"
  proof
    assume "Num 100 \<in> set (map (\<lambda>k. progress (Suc k) (Suc m)) [0..<m])"
    then obtain k where k: "k < m" "progress (Suc k) (Suc m) = Num 100" by auto
    from k(1) have "Suc k < Suc m" by simp
    from progress_below [OF this] assms(2) n k(2) show False by auto
  qed
  then have "count_list (map (\<lambda>k. progress (Suc k) (Suc m)) [0..<m]) (Num 100) = 0"
    by simp
  then show "count_list (expected_progress n) (Num 100) = 1"
    by (simp add: n expected_progress_Suc)
  show "last (expected_progress n) = Num 100"
    by (simp add: n expected_progress_Suc)
qed

text \<open>
  Claim C3, as amended. \<open>sendFile\<close> is called with a non-empty file of at most \<open>2 ^ 53\<close>
  bytes on a sender whose data channel is present, open and accepts every frame (its send
  queue is unbounded), and which is otherwise idle (no read and no retry is pending, and no
  earlier transfer has chunks left to send); the sender then runs undisturbed to the end
  (\<open>run_sender\<close> with at least two events per chunk: every read it starts loads its
  chunk, and the channel transmits what it holds when nothing else is pending). Then the
  call returns normally; the progress values the sender reports, and the progress values
  a receiver in any state reports when the frames of this transfer are delivered to it in
  order, are both \<open>Math.floor((k / chunkCount) * 100)\<close> for
  \<open>k = 1, \<dots>, chunkCount\<close>; this sequence is non-decreasing and contains 100 exactly once,
  as its last element; and the sender's history ends with the last chunk handed to the
  channel, then the report of 100, then the completion frame: 100 is reported before the
  completion frame is queued.
\<close>

theorem progress_monotone_reaches_100_once:
  assumes "dataChannel st = Some ch" "readyState ch = Open" "sendQueueLimit ch = None"
    and "tasks st = []" "\<not> in_flight st"
    and "file_bytes f \<noteq> []" "file_size f \<le> 2 ^ 53" "2 * chunk_count (file_size f) \<le> fuel"
  shows "\<exists>st1 before.
       sendFile f fid st = Inr st1
     \<and> progress_values (fired (run_sender fuel st1)) =
         progress_values (fired st) @ expected_progress (chunk_count (file_size f))
     \<and> progress_values
         (fired (receive (drop (length (sent_frames st)) (sent_frames (run_sender fuel st1))) r)) =
         progress_values (fired r) @ expected_progress (chunk_count (file_size f))
     \<and> sorted_wrt js_le (expected_progress (chunk_count (file_size f)))
     \<and> count_list (expected_progress (chunk_count (file_size f))) (Num 100) = 1
     \<and> last (expected_progress (chunk_count (file_size f))) = Num 100
     \<and> history (run_sender fuel st1) =
         before @ [Sent (Binary (chunk_of f (chunk_count (file_size f) - 1))),
                   Callback (OnProgress (Num 100)),
                   Sent (FileCompleteMsg fid)]"
proof -
  let ?n = "chunk_count (file_size f)"
  from assms(6) have n: "0 < ?n" by (simp add: chunk_count_pos file_size_def)
  from assms(7) chunk_count_le [of "file_size f"] have le: "?n \<le> 2 ^ 53" by simp
  from transfer_roundtrip [OF assms(1-6) assms(8), of fid r]
  obtain st1 where s: "sendFile f fid st = Inr st1"
    and h: "history (run_sender fuel st1) =
         history st @ Sent (FileInfoMsg (meta_of f fid))
           # chunk_actions f ?n @ [Sent (FileCompleteMsg fid)]"
    and fs: "fired (run_sender fuel st1) = fired st @ map OnProgress (expected_progress ?n)"
    and fr: "fired (receive (drop (length (sent_frames st)) (sent_frames (run_sender fuel st1))) r) =
         fired r @ OnFileInfo (meta_of f fid)
           # map OnProgress (expected_progress ?n)
           @ [OnComplete (Blob (file_bytes f) (file_type f)) (meta_of f fid)]"
    by blast
  from n obtain m where m: "?n = Suc m" by (cases ?n) auto
  have "chunk_actions f ?n = chunk_actions f m @
     [Sent (Binary (chunk_of f m)), Callback (OnProgress (Num 100))]"
    using chunk_actions_Suc [of f m] progress_full [of "Suc m"] by (simp add: m)
  with h have hist: "history (run_sender fuel st1) =
      (history st @ Sent (FileInfoMsg (meta_of f fid)) # chunk_actions f m)
        @ [Sent (Binary (chunk_of f (?n - 1))), Callback (OnProgress (Num 100)),
           Sent (FileCompleteMsg fid)]"
    by (simp add: m)
  have ps: "progress_values (fired (run_sender fuel st1)) =
         progress_values (fired st) @ expected_progress ?n"
    by (simp add: fs progress_values_def comp_def)
  have pr: "progress_values
         (fired (receive (drop (length (sent_frames st)) (sent_frames (run_sender fuel st1))) r)) =
         progress_values (fired r) @ expected_progress ?n"
    by (simp add: fr progress_values_def comp_def)
  from s ps pr expected_progress_sorted [of ?n] expected_progress_once [OF n le] hist
  show ?thesis by blast
qed

lemma example_report_size [simp]:
  "file_size example_report = 40000" "file_bytes example_report \<noteq> []"
  by (simp_all add: example_report_def file_size_def)

theorem progress_monotone_reaches_100_once_witness:
  "dataChannel example_sender = Some example_channel \<and> readyState example_channel = Open
   \<and> sendQueueLimit example_channel = None \<and> tasks example_sender = []
   \<and> \<not> in_flight example_sender
   \<and> file_bytes example_report \<noteq> [] \<and> file_size example_report \<le> 2 ^ 53
   \<and> (\<exists>st1. sendFile example_report ''1700000000000'' example_sender = Inr st1
        \<and> progress_values (fired (run_sender 6 st1)) = [Num 33, Num 66, Num 100]
        \<and> progress_values (fired (receive (sent_frames (run_sender 6 st1)) (new_peer ''p2'')))
            = [Num 33, Num 66, Num 100])
   \<and> sorted_wrt js_le [Num 33, Num 66, Num 100]
   \<and> count_list [Num 33, Num 66, Num 100] (Num 100) = 1"
proof -
  have n: "chunk_count (file_size example_report) = 3" by (simp add: chunk_count_eq)
  have f: "file_bytes example_report \<noteq> []" "file_size example_report \<le> 2 ^ 53"
    "2 * chunk_count (file_size example_report) \<le> 6"
    unfolding n by simp_all
  from progress_monotone_reaches_100_once
         [OF example_sender_idle f, of "''1700000000000''" "new_peer ''p2''"]
  obtain st1 where "sendFile example_report ''1700000000000'' example_sender = Inr st1"
    "progress_values (fired (run_sender 6 st1)) =
         progress_values (fired example_sender)
           @ expected_progress (chunk_count (file_size example_report))"
    "progress_values (fired (receive (drop (length (sent_frames example_sender))
         (sent_frames (run_sender 6 st1))) (new_peer ''p2''))) =
         progress_values (fired (new_peer ''p2''))
           @ expected_progress (chunk_count (file_size example_report))"
    "sorted_wrt js_le (expected_progress (chunk_count (file_size example_report)))"
    "count_list (expected_progress (chunk_count (file_size example_report))) (Num 100) = 1"
    by blast
  then have "(\<exists>st1. sendFile example_report ''1700000000000'' example_sender = Inr st1
        \<and> progress_values (fired (run_sender 6 st1)) = [Num 33, Num 66, Num 100]
        \<and> progress_values (fired (receive (sent_frames (run_sender 6 st1)) (new_peer ''p2'')))
            = [Num 33, Num 66, Num 100])
   \<and> sorted_wrt js_le [Num 33, Num 66, Num 100]
   \<and> count_list [Num 33, Num 66, Num 100] (Num 100) = 1"
    unfolding n expected_progress_3 by (simp add: progress_values_def)
  with example_sender_idle f(1,2) show ?thesis by blast
qed

lemma one_chunk_history:
  "map_sum id (\<lambda>st1. history (run_sender 2 st1))
       (sendFile example_file ''1700000000000'' example_sender)
     = Inr [Sent (FileInfoMsg \<lparr>fileId = ''1700000000000'', name = ''a.txt'', size_m = 3,
                                type_m = ''text/plain'', totalChunks = 1\<rparr>),
            Sent (Binary [104, 105, 33]),
            Callback (OnProgress (Num 100)),
            Sent (FileCompleteMsg ''1700000000000'')]
   \<and> map_sum id (\<lambda>st1. hundred_after_completion False (history (run_sender 2 st1)))
       (sendFile example_file ''1700000000000'' example_sender)
     = Inr False"
proof -
  have f: "file_bytes example_file \<noteq> []" "2 * chunk_count (file_size example_file) \<le> 2"
    by simp_all
  from transfer_roundtrip [OF example_sender_idle f, of "''1700000000000''" "new_peer ''p2''"]
  obtain st1 where s: "sendFile example_file ''1700000000000'' example_sender = Inr st1"
    and h: "history (run_sender 2 st1) =
         history example_sender @ Sent (FileInfoMsg (meta_of example_file ''1700000000000''))
           # chunk_actions example_file (chunk_count (file_size example_file))
           @ [Sent (FileCompleteMsg ''1700000000000'')]"
    by blast
  have c: "chunk_actions example_file (chunk_count (file_size example_file))
      = [Sent (Binary [104, 105, 33]), Callback (OnProgress (Num 100))]"
    using progress_full [of 1]
    by (simp add: chunk_actions_def chunk_of_take CHUNK_SIZE_def) (simp add: example_file_def)
  have "history (run_sender 2 st1) =
      [Sent (FileInfoMsg \<lparr>fileId = ''1700000000000'', name = ''a.txt'', size_m = 3,
                                type_m = ''text/plain'', totalChunks = 1\<rparr>),
            Sent (Binary [104, 105, 33]),
            Callback (OnProgress (Num 100)),
            Sent (FileCompleteMsg ''1700000000000'')]"
    unfolding h c by (simp add: meta_of_def) (simp add: example_file_def)
  then show ?thesis by (simp add: s)
qed

lemma empty_file_no_progress:
  "map_sum id (\<lambda>st1. progress_values (fired (run_sender 10 st1)))
       (sendFile example_empty_file ''1700000000000'' example_sender) = Inr []"
proof -
  let ?st1 = "example_sender
           \<lparr>dataChannel := Some (example_channel
               \<lparr>bufferedAmount := 64, bufferedAmountLowThreshold := 1024 * 1024,
                outbox := [FileInfoMsg (meta_of example_empty_file ''1700000000000'')],
                onbufferedamountlow := Some 0\<rparr>),
            transfers := [\<lparr>t_file = example_empty_file, t_fileId = ''1700000000000'',
                           t_totalChunks = 0, chunkIndex = 0, isReading = False\<rparr>],
            history := [Sent (FileInfoMsg (meta_of example_empty_file ''1700000000000''))]\<rparr>"
  have "tasks ?st1 = []" "\<not> in_flight ?st1"
    by (simp_all add: example_sender_def new_peer_def in_flight_def)
  then have r: "run_sender 10 ?st1 = ?st1" by (rule run_sender_idle)
  have "progress_values (fired ?st1) = []"
    by (simp add: fired_def progress_values_def)
  then show ?thesis
    by (simp only: empty_send_value map_sum.simps r)
qed

lemma nearly_full_two_value:
  "handleSend example_file ''1700000000001''
       (handleSend example_file ''1700000000000'' example_nearly_full_sender) =
     (new_peer ''p1'')
       \<lparr>dataChannel := Some (example_channel
           \<lparr>bufferedAmount := 16777216, bufferedAmountLowThreshold := 1024 * 1024,
            outbox := [FileInfoMsg (meta_of example_file ''1700000000000''),
                       FileInfoMsg (meta_of example_file ''1700000000001'')],
            onbufferedamountlow := Some 1\<rparr>),
        transfers := [\<lparr>t_file = example_file, t_fileId = ''1700000000000'', t_totalChunks = 1,
                       chunkIndex = 0, isReading = True\<rparr>,
                      \<lparr>t_file = example_file, t_fileId = ''1700000000001'', t_totalChunks = 1,
                       chunkIndex = 0, isReading = True\<rparr>],
        tasks := [Reader 0 [104, 105, 33], Reader 1 [104, 105, 33]],
        history := [Sent (FileInfoMsg (meta_of example_file ''1700000000000'')),
                    Sent (FileInfoMsg (meta_of example_file ''1700000000001''))]\<rparr>"
  by (simp add: handleSend_def example_nearly_full_sender_def
      example_channel_def new_peer_def meta_of_def sender_defs)
     (simp add: example_file_def)

lemma second_transfer_progress:
  "progress_values (fired (exec [ReaderLoad 0, ReaderLoad 0, Drain 16000000, TimerFire 0, ReaderLoad 0]
       (handleSend example_file ''1700000000001''
          (handleSend example_file ''1700000000000'' example_nearly_full_sender))))
     = [Num 100, Num 100, Num 200]"
proof -
  have p: "progress (Suc (Suc 0)) (Suc 0) = Num 200" by code_simp
  show ?thesis
    unfolding nearly_full_two_value
    by (simp add: progress_values_def fired_def example_channel_def new_peer_def sender_defs
        progress_full p)
qed

text \<open>
  The claim as stated fails in four ways. For the one-chunk file \<open>a.txt\<close> the sender
  reports 100 when no completion frame has been handed to the channel yet: the report
  precedes the completion frame. For the zero-byte file no progress is reported at all, so
  100 is never attained. And on a sender that is not idle the values are neither
  non-decreasing up to a single 100 nor bounded by 100: the send button is pressed twice
  for \<open>a.txt\<close> on a channel that the two metadata frames fill to 16 MiB; the chunk of the
  first transfer is sent (100), the chunk of the second waits for a retry, the channel
  drains and the \<open>bufferedamountlow\<close> handler reads the same chunk again, the retry sends
  it (100), and the second read sends it once more with \<open>chunkIndex = 2\<close> of
  \<open>totalChunks = 1\<close> (200).
\<close>

theorem progress_claim_counterexample:
  "map_sum id (\<lambda>st1. history (run_sender 2 st1))
       (sendFile example_file ''1700000000000'' example_sender)
     = Inr [Sent (FileInfoMsg \<lparr>fileId = ''1700000000000'', name = ''a.txt'', size_m = 3,
                                type_m = ''text/plain'', totalChunks = 1\<rparr>),
            Sent (Binary [104, 105, 33]),
            Callback (OnProgress (Num 100)),
            Sent (FileCompleteMsg ''1700000000000'')]
   \<and> map_sum id (\<lambda>st1. hundred_after_completion False (history (run_sender 2 st1)))
       (sendFile example_file ''1700000000000'' example_sender)
     = Inr False
   \<and> map_sum id (\<lambda>st1. progress_values (fired (run_sender 10 st1)))
       (sendFile example_empty_file ''1700000000000'' example_sender) = Inr []
   \<and> progress_values (fired (exec [ReaderLoad 0, ReaderLoad 0, Drain 16000000, TimerFire 0, ReaderLoad 0]
       (handleSend example_file ''1700000000001''
          (handleSend example_file ''1700000000000'' example_nearly_full_sender))))
     = [Num 100, Num 100, Num 200]"
  using one_chunk_history empty_file_no_progress second_transfer_progress
  by (intro conjI) simp_all

section \<open>Backpressure\<close>





lemma sendNextChunk_sent [simp]:
  "sent_frames (sendNextChunk tid st) = sent_frames st"
  by (simp add: sendNextChunk_def sent_frames_def Let_def split: option.splits)

lemma sent_frames_emit [simp]:
  "sent_frames (emit (Sent fr) st) = sent_frames st @ [fr]"
  "sent_frames (emit (Callback ev) st) = sent_frames st"
  "sent_frames (emit (Console m) st) = sent_frames st"
  by (simp_all add: sent_frames_def emit_def)

lemma sent_frames_upd [simp]:
  "sent_frames (st\<lparr>tasks := ts\<rparr>) = sent_frames st"
  "sent_frames (st\<lparr>transfers := trs\<rparr>) = sent_frames st"
  "sent_frames (st\<lparr>dataChannel := c\<rparr>) = sent_frames st"
  by (simp_all add: sent_frames_def)














end
